theory Spec2Isabelle
  imports Main "HOL-Library.Sublist"
begin

section \<open>The entity-relation store of src/src/index.js\<close>

text \<open>
  The store is two SQLite tables, \<open>entities\<close> and \<open>relations\<close>, created by the
  \<open>db.exec\<close> call at the top of the file. A table is modelled as the list of its rows in
  rowid order: an \<open>INSERT\<close> appends, a \<open>DELETE\<close> filters, an \<open>UPDATE\<close> maps. The columns
  \<open>content\<close> and \<open>metadata\<close> are nullable \<open>TEXT\<close>, so they are \<open>string option\<close>;
  \<open>created_at\<close> and \<open>updated_at\<close> hold \<open>CURRENT_TIMESTAMP\<close>, a text of one-second
  resolution whose order is the order of time, modelled as a number of seconds.
\<close>

record entity =
  e_id :: string
  e_name :: string
  e_type :: string
  e_content :: "string option"
  e_metadata :: "string option"
  e_created_at :: nat
  e_updated_at :: nat

record relation =
  r_id :: string
  from_entity :: string
  to_entity :: string
  relation_type :: string
  r_metadata :: "string option"
  r_created_at :: nat

record db =
  entities :: "entity list"
  relations :: "relation list"

text \<open>
  The errors that the statements of the memory functions can raise. Both tables declare \<open>id TEXT PRIMARY KEY\<close>;
  \<open>relations\<close> declares \<open>FOREIGN KEY (from_entity) REFERENCES entities(id)\<close> and the same for
  \<open>to_entity\<close>. \<open>SQLITE_ERROR\<close> is the generic error, with its message.
\<close>

datatype sqlite_error =
  SQLITE_CONSTRAINT_PRIMARYKEY | SQLITE_CONSTRAINT_FOREIGNKEY | SQLITE_ERROR string

text \<open>
  What the functions read from outside the file is a parameter of the model:
  \<^item> \<open>uuid\<close>: the value \<open>randomUUID()\<close> returns in this call;
  \<^item> \<open>now\<close>: the value of \<open>CURRENT_TIMESTAMP\<close> in this statement;
  \<^item> \<open>stringify\<close> and \<open>parse\<close>: the built-ins \<open>JSON.stringify\<close> and \<open>JSON.parse\<close>, over
    a type \<open>'j\<close> of JSON values;
  \<^item> \<open>fk\<close>: whether the database connection enforces the declared foreign keys. The file
    never sets \<open>PRAGMA foreign_keys\<close>, so this is the default of the SQLite build behind
    \<open>better-sqlite3\<close> (whose bundled build is compiled with \<open>SQLITE_DEFAULT_FOREIGN_KEYS=1\<close>;
    a stock SQLite build has it off).
\<close>

subsection \<open>memoryStore\<close>

record store_result =
  sr_id :: string
  sr_name :: string
  sr_type :: string
  sr_created :: bool

text \<open>
  \<open>INSERT INTO entities (id, name, type, content, metadata) VALUES (?, ?, ?, ?, ?)\<close>: the
  statement raises when the primary key is taken; the two timestamps take their default.
\<close>

definition memoryStore ::
  "('j \<Rightarrow> string) \<Rightarrow> string \<Rightarrow> nat \<Rightarrow> string \<Rightarrow> string \<Rightarrow> string option \<Rightarrow> 'j \<Rightarrow> db
    \<Rightarrow> sqlite_error + (db \<times> store_result)" where
  "memoryStore stringify uuid now name type content metadata d =
     (if uuid \<in> set (map e_id (entities d)) then Inl SQLITE_CONSTRAINT_PRIMARYKEY
      else Inr (d\<lparr>entities := entities d @
                   [\<lparr>e_id = uuid, e_name = name, e_type = type, e_content = content,
                     e_metadata = Some (stringify metadata),
                     e_created_at = now, e_updated_at = now\<rparr>]\<rparr>,
                \<lparr>sr_id = uuid, sr_name = name, sr_type = type, sr_created = True\<rparr>))"

subsection \<open>memoryUpdate\<close>

record update_result =
  u_id :: string
  updated :: bool

text \<open>
  \<open>UPDATE entities SET content = ?, updated_at = CURRENT_TIMESTAMP [, metadata = ?] WHERE id = ?\<close>.
  The argument \<open>metadata\<close> is \<open>None\<close> for \<open>null\<close> (the default of the parameter), and only
  then is the column left alone. \<open>result.changes\<close> is the number of rows the \<open>WHERE\<close>
  clause selects. The statement writes no constrained column, so it has no error branch.
\<close>

definition update_row :: "('j \<Rightarrow> string) \<Rightarrow> nat \<Rightarrow> string option \<Rightarrow> 'j option \<Rightarrow> entity \<Rightarrow> entity" where
  "update_row stringify now content metadata e =
     (case metadata of
        None \<Rightarrow> e\<lparr>e_content := content, e_updated_at := now\<rparr>
      | Some m \<Rightarrow> e\<lparr>e_content := content, e_updated_at := now, e_metadata := Some (stringify m)\<rparr>)"

definition memoryUpdate ::
  "('j \<Rightarrow> string) \<Rightarrow> nat \<Rightarrow> string \<Rightarrow> string option \<Rightarrow> 'j option \<Rightarrow> db \<Rightarrow> db \<times> update_result" where
  "memoryUpdate stringify now k content metadata d =
     (let changes = length (filter (\<lambda>e. e_id e = k) (entities d))
      in (d\<lparr>entities := map (\<lambda>e. if e_id e = k then update_row stringify now content metadata e else e)
                              (entities d)\<rparr>,
          \<lparr>u_id = k, updated = (changes > 0)\<rparr>))"

subsection \<open>memoryRecall\<close>

record 'j recalled =
  rc_id :: string
  rc_name :: string
  rc_type :: string
  rc_content :: "string option"
  rc_metadata :: 'j
  rc_created_at :: nat
  rc_updated_at :: nat

datatype 'j recall_result = NotFound | Found "'j recalled"

text \<open>
  \<open>SELECT * FROM entities WHERE id = ? OR name = ?\<close>, both parameters bound to \<open>nameOrId\<close>.
  Both terms of the \<open>OR\<close> are equalities on an indexed column (the automatic index of the
  primary key, and \<open>idx_entities_name\<close>, both created by the \<open>db.exec\<close> call), and
  SQLite answers such a query with one index probe for each term, in the order the terms
  are written, giving each row once (the plan it reports is \<open>MULTI-INDEX OR\<close>): the rows
  whose id matches, then the other rows whose name matches, these in rowid order. This
  is the plan of a database without planner statistics, which is the state of this one:
  no statement of the program runs \<open>ANALYZE\<close>.
\<close>

definition select_id_or_name :: "string \<Rightarrow> entity list \<Rightarrow> entity list" where
  "select_id_or_name k es =
     filter (\<lambda>e. e_id e = k) es @ filter (\<lambda>e. e_name e = k \<and> e_id e \<noteq> k) es"

text \<open>\<open>JSON.parse(entity.metadata || '{}')\<close>: a null column and an empty text both give \<open>'{}'\<close>.\<close>

definition metadata_text :: "string option \<Rightarrow> string" where
  "metadata_text m = (case m of None \<Rightarrow> ''{}'' | Some t \<Rightarrow> if t = [] then ''{}'' else t)"

definition recalled_of :: "(string \<Rightarrow> 'j) \<Rightarrow> entity \<Rightarrow> 'j recalled" where
  "recalled_of parse e =
     \<lparr>rc_id = e_id e, rc_name = e_name e, rc_type = e_type e, rc_content = e_content e,
      rc_metadata = parse (metadata_text (e_metadata e)),
      rc_created_at = e_created_at e, rc_updated_at = e_updated_at e\<rparr>"

text \<open>\<open>stmt.get\<close> gives the first row of the result, or \<open>undefined\<close> when there is none.\<close>

definition memoryRecall :: "(string \<Rightarrow> 'j) \<Rightarrow> string \<Rightarrow> db \<Rightarrow> 'j recall_result" where
  "memoryRecall parse nameOrId d =
     (case select_id_or_name nameOrId (entities d) of
        [] \<Rightarrow> NotFound
      | e # _ \<Rightarrow> Found (recalled_of parse e))"

subsection \<open>memorySearch\<close>

text \<open>
  A \<open>TEXT\<close> value is the list of the bytes of its UTF-8 encoding, a \<open>char\<close> being a byte.
  SQLite steps over one character of it by taking a byte and, when this byte is 0xC0 or
  more, the continuation bytes (0x80 to 0xBF) that follow it.
\<close>

definition continuation :: "char \<Rightarrow> bool" where
  "continuation b = (128 \<le> (of_char b :: nat) \<and> (of_char b :: nat) < 192)"

definition skip_char :: "string \<Rightarrow> string" where
  "skip_char s =
     (case s of
        [] \<Rightarrow> []
      | b # bs \<Rightarrow> if (of_char b :: nat) < 192 then bs else dropWhile continuation bs)"

text \<open>
  The matching of the \<open>LIKE\<close> operator of SQLite, pattern first: \<open>%\<close> in the pattern
  stands for any run of characters, \<open>_\<close> for any one character, and every other byte for
  itself, where an upper-case ASCII letter and its lower-case letter count as the same.
  The statement has no \<open>ESCAPE\<close> clause, so no character of the pattern is taken
  literally.
\<close>

definition toLowerAscii :: "char \<Rightarrow> char" where
  "toLowerAscii c =
     (case map_of (zip ''ABCDEFGHIJKLMNOPQRSTUVWXYZ'' ''abcdefghijklmnopqrstuvwxyz'') c of
        None \<Rightarrow> c
      | Some l \<Rightarrow> l)"

function sql_like :: "string \<Rightarrow> string \<Rightarrow> bool" where
  "sql_like [] s = (s = [])"
| "sql_like (p # ps) [] = (p = CHR ''%'' \<and> sql_like ps [])"
| "sql_like (p # ps) (c # t) =
     (if p = CHR ''%'' then sql_like ps (c # t) \<or> sql_like (p # ps) (skip_char (c # t))
      else if p = CHR ''_'' then sql_like ps (skip_char (c # t))
      else toLowerAscii p = toLowerAscii c \<and> sql_like ps t)"
  by pat_completeness auto

termination
proof (relation "measure (\<lambda>(p, s). length p + length s)", goal_cases)
  case 1
  show ?case by simp
next
  case (2 p ps)
  show ?case by simp
next
  case (3 p ps c t)
  show ?case by simp
next
  case (4 p ps c t)
  have "length (dropWhile continuation t) \<le> length t"
    by (rule length_dropWhile_le)
  then show ?case by (simp add: skip_char_def)
next
  case (5 p ps c t)
  have "length (dropWhile continuation t) \<le> length t"
    by (rule length_dropWhile_le)
  then show ?case by (simp add: skip_char_def)
next
  case (6 p ps c t)
  show ?case by simp
qed

text \<open>
  The operator itself, \<open>text LIKE pattern\<close> on two texts. It raises
  \<open>LIKE or GLOB pattern too complex\<close> when the pattern has more than 50000 bytes
  (\<open>SQLITE_MAX_LIKE_PATTERN_LENGTH\<close>), the whole of the bound value counted. Otherwise it
  reads the pattern and the text as C strings, each up to its first NUL character, and
  matches what it read.
\<close>

definition upto_nul :: "string \<Rightarrow> string" where
  "upto_nul s = takeWhile (\<lambda>c. c \<noteq> CHR 0x00) s"

definition like_operator :: "string \<Rightarrow> string \<Rightarrow> sqlite_error + bool" where
  "like_operator text pattern =
     (if 50000 < length pattern then Inl (SQLITE_ERROR ''LIKE or GLOB pattern too complex'')
      else Inr (sql_like (upto_nul pattern) (upto_nul text)))"

text \<open>
  \<open>name LIKE ? OR content LIKE ?\<close> on one row: \<open>name\<close> is never null, and a null
  \<open>content\<close> matches nothing.
\<close>

definition row_matches :: "string \<Rightarrow> entity \<Rightarrow> sqlite_error + bool" where
  "row_matches pattern e =
     (case like_operator (e_name e) pattern of
        Inl err \<Rightarrow> Inl err
      | Inr named \<Rightarrow>
          if named then Inr True
          else (case e_content e of None \<Rightarrow> Inr False | Some c \<Rightarrow> like_operator c pattern))"

text \<open>The rows are tested one after the other, and the first error ends the statement.\<close>

fun select_rows :: "string \<Rightarrow> entity list \<Rightarrow> sqlite_error + entity list" where
  "select_rows pattern [] = Inr []"
| "select_rows pattern (e # es) =
     (case row_matches pattern e of
        Inl err \<Rightarrow> Inl err
      | Inr matched \<Rightarrow>
          (case select_rows pattern es of
             Inl err \<Rightarrow> Inl err
           | Inr rows \<Rightarrow> Inr (if matched then e # rows else rows)))"

text \<open>
  \<open>AND type = ?\<close> is added only when the argument \<open>type\<close> is truthy: \<open>None\<close> is \<open>null\<close>,
  and the empty string is falsy too. With it, the rows tested against the pattern are
  those that \<open>idx_entities_type\<close> gives for the type, in rowid order; without it, all
  rows of the table.
\<close>

definition of_type :: "string option \<Rightarrow> entity \<Rightarrow> bool" where
  "of_type type e = (case type of None \<Rightarrow> True | Some t \<Rightarrow> t = [] \<or> e_type e = t)"

text \<open>
  \<open>ORDER BY updated_at DESC\<close> over the selected rows: the sort keeps rows of equal
  \<open>updated_at\<close> in the order they were selected in.
\<close>

definition order_by_updated_at_desc :: "entity list \<Rightarrow> entity list" where
  "order_by_updated_at_desc es = sort_key (\<lambda>e. - int (e_updated_at e)) es"

text \<open>
  A JavaScript string counts UTF-16 code units: a character encoded in four bytes of
  UTF-8 takes two units, every other character one. \<open>js_length\<close> is \<open>length\<close> of the
  string that a \<open>TEXT\<close> value is read as, and \<open>js_substring n\<close> is \<open>substring(0, n)\<close> of
  it. Where the cut falls inside a character of two units, what is left of it is its high
  surrogate, written here in the three-byte form of its number.
\<close>

definition utf16_units :: "char \<Rightarrow> nat" where
  "utf16_units b = (if continuation b then 0 else if 240 \<le> (of_char b :: nat) then 2 else 1)"

definition js_length :: "string \<Rightarrow> nat" where
  "js_length s = sum_list (map utf16_units s)"

definition high_surrogate :: "string \<Rightarrow> string" where
  "high_surrogate ch =
     (let cp = foldl (\<lambda>n b. 64 * n + (of_char b :: nat) mod 64)
                 ((of_char (hd ch) :: nat) mod 8) (tl ch);
          hi = 55296 + (cp - 65536) div 1024
      in [char_of (224 + hi div 4096), char_of (128 + (hi div 64) mod 64), char_of (128 + hi mod 64)])"

fun js_substring :: "nat \<Rightarrow> string \<Rightarrow> string" where
  "js_substring n [] = []"
| "js_substring n (b # bs) =
     (if continuation b then b # js_substring n bs
      else if utf16_units b \<le> n then b # js_substring (n - utf16_units b) bs
      else if n = 0 then []
      else high_surrogate (b # takeWhile continuation bs))"

text \<open>
  \<open>e.content?.substring(0, 200) + (e.content?.length > 200 ? '...' : '')\<close>: on a null
  content both optional chains give \<open>undefined\<close>, the comparison is false, and
  \<open>undefined + ''\<close> is the string \<open>'undefined'\<close>.
\<close>

definition content_preview :: "string option \<Rightarrow> string" where
  "content_preview content =
     (case content of
        None \<Rightarrow> ''undefined''
      | Some c \<Rightarrow> js_substring 200 c @ (if js_length c > 200 then ''...'' else []))"

record search_row =
  s_id :: string
  s_name :: string
  s_type :: string
  s_content :: string
  s_updated_at :: nat

definition search_row_of :: "entity \<Rightarrow> search_row" where
  "search_row_of e =
     \<lparr>s_id = e_id e, s_name = e_name e, s_type = e_type e,
      s_content = content_preview (e_content e), s_updated_at = e_updated_at e\<rparr>"

record search_result =
  s_count :: nat
  s_entities :: "search_row list"

definition memorySearch :: "string \<Rightarrow> string option \<Rightarrow> db \<Rightarrow> sqlite_error + search_result" where
  "memorySearch query type d =
     (case select_rows (''%'' @ query @ ''%'') (filter (of_type type) (entities d)) of
        Inl err \<Rightarrow> Inl err
      | Inr rows \<Rightarrow>
          (let es = take 50 (order_by_updated_at_desc rows)
           in Inr \<lparr>s_count = length es, s_entities = map search_row_of es\<rparr>))"

text \<open>
  What "a case-insensitive substring match" says, to compare \<open>LIKE\<close> with: the query
  occurs in the text somewhere, letter case of ASCII letters aside.
\<close>

fun ci_prefix :: "string \<Rightarrow> string \<Rightarrow> bool" where
  "ci_prefix [] s = True"
| "ci_prefix (q # qs) [] = False"
| "ci_prefix (q # qs) (c # cs) = (toLowerAscii q = toLowerAscii c \<and> ci_prefix qs cs)"

fun ci_substring :: "string \<Rightarrow> string \<Rightarrow> bool" where
  "ci_substring q [] = ci_prefix q []"
| "ci_substring q (c # cs) = (ci_prefix q (c # cs) \<or> ci_substring q cs)"

definition wildcard_free :: "string \<Rightarrow> bool" where
  "wildcard_free q = (\<forall>c\<in>set q. c \<noteq> CHR ''%'' \<and> c \<noteq> CHR ''_'')"

subsection \<open>memoryDelete\<close>

record delete_result =
  deleted :: bool

text \<open>
  \<open>DELETE FROM entities WHERE id = ?\<close>. The foreign keys of \<open>relations\<close> declare no
  \<open>ON DELETE\<close> action, so where they are enforced the statement fails when it would
  delete a row that a relation refers to, and deletes nothing.
\<close>

definition memoryDelete :: "bool \<Rightarrow> string \<Rightarrow> db \<Rightarrow> sqlite_error + (db \<times> delete_result)" where
  "memoryDelete fk k d =
     (let changes = length (filter (\<lambda>e. e_id e = k) (entities d))
      in if fk \<and> changes > 0 \<and> (\<exists>r\<in>set (relations d). from_entity r = k \<or> to_entity r = k)
         then Inl SQLITE_CONSTRAINT_FOREIGNKEY
         else Inr (d\<lparr>entities := filter (\<lambda>e. e_id e \<noteq> k) (entities d)\<rparr>,
                   \<lparr>deleted = (changes > 0)\<rparr>))"

subsection \<open>memoryRelate\<close>

record relate_result =
  rr_id :: string
  rr_created :: bool

text \<open>
  \<open>INSERT INTO relations (id, from_entity, to_entity, relation_type, metadata)\<close>. The
  function itself checks nothing; the statement fails on a taken primary key and, where
  foreign keys are enforced, on an endpoint that is the id of no entity.
\<close>

definition memoryRelate ::
  "('j \<Rightarrow> string) \<Rightarrow> bool \<Rightarrow> string \<Rightarrow> nat \<Rightarrow> string \<Rightarrow> string \<Rightarrow> string \<Rightarrow> 'j \<Rightarrow> db
    \<Rightarrow> sqlite_error + (db \<times> relate_result)" where
  "memoryRelate stringify fk uuid now fromId toId relationType metadata d =
     (if uuid \<in> set (map r_id (relations d)) then Inl SQLITE_CONSTRAINT_PRIMARYKEY
      else if fk \<and> (fromId \<notin> set (map e_id (entities d)) \<or> toId \<notin> set (map e_id (entities d)))
      then Inl SQLITE_CONSTRAINT_FOREIGNKEY
      else Inr (d\<lparr>relations := relations d @
                   [\<lparr>r_id = uuid, from_entity = fromId, to_entity = toId,
                     relation_type = relationType, r_metadata = Some (stringify metadata),
                     r_created_at = now\<rparr>]\<rparr>,
                \<lparr>rr_id = uuid, rr_created = True\<rparr>))"

subsection \<open>memoryGetRelations\<close>

record relation_row =
  rel :: relation
  from_name :: "string option"
  from_type :: "string option"
  to_name :: "string option"
  to_type :: "string option"

text \<open>
  \<open>WHERE r.from_entity = ? OR r.to_entity = ?\<close> is again an \<open>OR\<close> of two indexed
  equalities (\<open>idx_relations_from\<close>, \<open>idx_relations_to\<close>). Each \<open>LEFT JOIN entities e ON
  r.x = e.id\<close> pairs the relation with every entity of that id, and with a row of nulls
  when there is none.
\<close>

definition select_from_or_to :: "string \<Rightarrow> relation list \<Rightarrow> relation list" where
  "select_from_or_to k rs =
     filter (\<lambda>r. from_entity r = k) rs @ filter (\<lambda>r. to_entity r = k \<and> from_entity r \<noteq> k) rs"

definition left_join :: "string \<Rightarrow> entity list \<Rightarrow> entity option list" where
  "left_join k es = (case filter (\<lambda>e. e_id e = k) es of [] \<Rightarrow> [None] | ms \<Rightarrow> map Some ms)"

definition relation_row_of :: "relation \<Rightarrow> entity option \<Rightarrow> entity option \<Rightarrow> relation_row" where
  "relation_row_of r e1 e2 =
     \<lparr>rel = r, from_name = map_option e_name e1, from_type = map_option e_type e1,
      to_name = map_option e_name e2, to_type = map_option e_type e2\<rparr>"

record relations_result =
  rel_count :: nat
  rel_rows :: "relation_row list"

definition memoryGetRelations :: "string \<Rightarrow> db \<Rightarrow> relations_result" where
  "memoryGetRelations entityId d =
     (let rows = [relation_row_of r e1 e2.
                    r \<leftarrow> select_from_or_to entityId (relations d),
                    e1 \<leftarrow> left_join (from_entity r) (entities d),
                    e2 \<leftarrow> left_join (to_entity r) (entities d)]
      in \<lparr>rel_count = length rows, rel_rows = rows\<rparr>)"

section \<open>The session registry and the /mcp routes\<close>

text \<open>
  \<open>const sessions = new Map()\<close> maps a session id to the object \<open>{ transport, server }\<close>.
  A transport and a server are objects with an identity, modelled as numbers. The header
  \<open>mcp-session-id\<close> of a request is a string or \<open>undefined\<close>.
\<close>

record session =
  transport :: nat
  server :: nat

type_synonym registry = "string \<rightharpoonup> session"

text \<open>
  \<open>sessionId && sessions.has(sessionId)\<close>, and \<open>sessions.get(sessionId)\<close> where it
  holds: an absent or empty header is falsy.
\<close>

definition lookup :: "registry \<Rightarrow> string option \<Rightarrow> (string \<times> session) option" where
  "lookup sessions header =
     (case header of
        None \<Rightarrow> None
      | Some sessionId \<Rightarrow>
          if sessionId = [] then None
          else (case sessions sessionId of None \<Rightarrow> None | Some found \<Rightarrow> Some (sessionId, found)))"

definition live :: "registry \<Rightarrow> string option \<Rightarrow> bool" where
  "live sessions header = (lookup sessions header \<noteq> None)"

text \<open>
  \<open>app.post('/mcp')\<close>. The outcome names the value of the response header
  \<open>Mcp-Session-Id\<close> and the pair whose transport is given the request, or is the status
  500 of the \<open>catch\<close>. Read from outside: \<open>uuid\<close>, the value of \<open>randomUUID()\<close>;
  \<open>created\<close>, the server and transport built in the \<open>else\<close> branch; \<open>connected\<close>,
  whether \<open>await server.connect(transport)\<close> returns rather than throws; and
  \<open>initialized\<close>, whether the transport calls its \<open>onsessioninitialized\<close> while it
  handles the request. The callback of a transport writes the pair of this transport
  under the id its \<open>sessionIdGenerator\<close> gives, which is the id it was registered with.
\<close>

datatype post_outcome = Handled string session | Status500

definition post_mcp ::
  "registry \<Rightarrow> string option \<Rightarrow> string \<Rightarrow> session \<Rightarrow> bool \<Rightarrow> bool \<Rightarrow> registry \<times> post_outcome" where
  "post_mcp sessions header uuid created connected initialized =
     (case lookup sessions header of
        Some (sessionId, found) \<Rightarrow>
          (if initialized then sessions(sessionId \<mapsto> found) else sessions,
           Handled sessionId found)
      | None \<Rightarrow>
          if \<not> connected then (sessions, Status500)
          else
            (let sessions1 = sessions(uuid \<mapsto> created);
                 sessions2 = (if initialized then sessions1(uuid \<mapsto> created) else sessions1)
             in (sessions2, Handled uuid created)))"

text \<open>\<open>app.delete('/mcp')\<close>, with the status of the response.\<close>

definition delete_mcp :: "registry \<Rightarrow> string option \<Rightarrow> registry \<times> nat" where
  "delete_mcp sessions header =
     (case lookup sessions header of
        Some (sessionId, found) \<Rightarrow> (sessions(sessionId := None), 200)
      | None \<Rightarrow> (sessions, 404))"

text \<open>A run of requests, each handled to its end before the next.\<close>

datatype request = POST "string option" string session bool bool | DELETE "string option"

fun handle :: "request \<Rightarrow> registry \<Rightarrow> registry" where
  "handle (POST header uuid created connected initialized) sessions =
     fst (post_mcp sessions header uuid created connected initialized)"
| "handle (DELETE header) sessions = fst (delete_mcp sessions header)"

fun run :: "request list \<Rightarrow> registry \<Rightarrow> registry" where
  "run [] sessions = sessions"
| "run (r # rs) sessions = run rs (handle r sessions)"

text \<open>The request that tears the session \<open>sid\<close> down.\<close>

fun tears_down :: "string \<Rightarrow> request \<Rightarrow> bool" where
  "tears_down sid (DELETE header) = (header = Some sid)"
| "tears_down sid (POST header uuid created connected initialized) = False"

text \<open>
  What is assumed of \<open>randomUUID\<close> along a run: the id it gives to a request that creates
  a session is not an id of the registry at that moment.
\<close>

fun fresh_uuids :: "request list \<Rightarrow> registry \<Rightarrow> bool" where
  "fresh_uuids [] sessions = True"
| "fresh_uuids (r # rs) sessions =
     ((case r of
         POST header uuid created connected initialized \<Rightarrow> live sessions header \<or> sessions uuid = None
       | DELETE header \<Rightarrow> True)
      \<and> fresh_uuids rs (handle r sessions))"

section \<open>The tool dispatcher\<close>

text \<open>
  The handler of \<open>CallToolRequestSchema\<close> in \<open>createMCPServer\<close>: a \<open>switch\<close> on the tool
  name inside a \<open>try\<close>, whose \<open>catch\<close> turns every exception into a result with
  \<open>isError: true\<close>. The names below are the \<open>case\<close> labels, in their order.
\<close>

definition tool_names :: "string list" where
  "tool_names =
     [''fs_write_file'', ''fs_read_file'', ''fs_edit_file'', ''fs_delete_file'',
      ''fs_create_directory'', ''fs_list_directory'', ''fs_directory_tree'',
      ''memory_store'', ''memory_update'', ''memory_recall'', ''memory_search'',
      ''memory_list'', ''memory_delete'', ''memory_relate'', ''memory_get_relations'',
      ''railway_list_projects'', ''railway_create_project'', ''railway_create_service'',
      ''railway_deploy'', ''railway_generate_domain'', ''railway_set_variables'',
      ''railway_get_deployments'',
      ''supabase_list_projects'', ''supabase_get_project'', ''supabase_create_project'',
      ''supabase_list_organizations'', ''supabase_run_sql'', ''supabase_list_tables'',
      ''supabase_create_table'']"

text \<open>An exception is an \<open>Error\<close> with its message.\<close>

datatype error = Error (message: string)

record content_item =
  c_type :: string
  c_text :: string

record call_result =
  cr_content :: "content_item list"
  isError :: bool

text \<open>
  \<open>body name args\<close> stands for the statement of the \<open>case\<close> labelled \<open>name\<close>: it gives
  the value assigned to \<open>result\<close>, or the exception the call throws. \<open>pretty\<close> is
  \<open>JSON.stringify(result, null, 2)\<close>. A result without the key \<open>isError\<close> is modelled with
  \<open>isError = False\<close>. The function returns the handler's return value: no exception
  leaves the \<open>try\<close>.
\<close>

definition callTool ::
  "(string \<Rightarrow> 'a \<Rightarrow> error + 'r) \<Rightarrow> ('r \<Rightarrow> string) \<Rightarrow> string \<Rightarrow> 'a \<Rightarrow> call_result" where
  "callTool body pretty name args =
     (case (if name \<in> set tool_names then body name args
            else Inl (Error (''Unknown tool: '' @ name))) of
        Inr result \<Rightarrow> \<lparr>cr_content = [\<lparr>c_type = ''text'', c_text = pretty result\<rparr>], isError = False\<rparr>
      | Inl err \<Rightarrow>
          \<lparr>cr_content = [\<lparr>c_type = ''text'', c_text = ''Error: '' @ message err\<rparr>], isError = True\<rparr>)"

section \<open>The filesystem tools\<close>

text \<open>
  Paths are POSIX paths. Read from outside the file: \<open>ws\<close>, the constant
  \<open>WORKSPACE_DIR\<close> (\<open>process.env.WORKSPACE_DIR || '/tmp/workspace'\<close>); \<open>cwd\<close>, the
  absolute path \<open>process.cwd()\<close>, which \<open>path.resolve\<close> falls back on when none of its
  arguments is absolute; and the functions of \<open>fs/promises\<close>.
\<close>

subsection \<open>The functions of the module path that the tools use\<close>

fun segments :: "string \<Rightarrow> string list" where
  "segments [] = [[]]"
| "segments (c # cs) =
     (if c = CHR ''/'' then [] # segments cs
      else (case segments cs of [] \<Rightarrow> [[c]] | s # ss \<Rightarrow> (c # s) # ss))"

text \<open>
  Empty segments and \<open>.\<close> are dropped, and \<open>..\<close> drops the segment before it, if there
  is one: above the root there is nothing to go to. The first argument holds the
  segments kept so far, last first.
\<close>

fun normalizeSegments :: "string list \<Rightarrow> string list \<Rightarrow> string list" where
  "normalizeSegments kept [] = rev kept"
| "normalizeSegments kept (s # ss) =
     (if s = [] \<or> s = ''.'' then normalizeSegments kept ss
      else if s = ''..'' then normalizeSegments (tl kept) ss
      else normalizeSegments (s # kept) ss)"

fun joinSegments :: "string list \<Rightarrow> string" where
  "joinSegments [] = []"
| "joinSegments [s] = s"
| "joinSegments (s # t # ss) = s @ ''/'' @ joinSegments (t # ss)"

definition isAbsolute :: "string \<Rightarrow> bool" where
  "isAbsolute p = (case p of [] \<Rightarrow> False | c # _ \<Rightarrow> c = CHR ''/'')"

definition normalizeAbsolute :: "string \<Rightarrow> string" where
  "normalizeAbsolute p = CHR ''/'' # joinSegments (normalizeSegments [] (segments p))"

text \<open>\<open>path.resolve(base, p)\<close>: the arguments are taken from the right until an absolute path is built.\<close>

definition path_resolve :: "string \<Rightarrow> string \<Rightarrow> string \<Rightarrow> string" where
  "path_resolve cwd base p =
     normalizeAbsolute
       (if isAbsolute p then p
        else if isAbsolute base then base @ ''/'' @ p
        else cwd @ ''/'' @ base @ ''/'' @ p)"

text \<open>
  \<open>path.join\<close> and \<open>path.dirname\<close>, on the arguments the tools give them: an absolute,
  normalized path, and for \<open>path.join\<close> the name of a directory entry.
\<close>

definition path_join :: "string \<Rightarrow> string \<Rightarrow> string" where
  "path_join dir name = normalizeAbsolute (dir @ ''/'' @ name)"

definition path_dirname :: "string \<Rightarrow> string" where
  "path_dirname p = CHR ''/'' # joinSegments (butlast (normalizeSegments [] (segments p)))"

definition startsWith :: "string \<Rightarrow> string \<Rightarrow> bool" where
  "startsWith s p = (take (length p) s = p)"

subsection \<open>resolvePath\<close>

definition resolvePath :: "string \<Rightarrow> string \<Rightarrow> string \<Rightarrow> error + string" where
  "resolvePath cwd ws filePath =
     (let resolved = path_resolve cwd ws filePath
      in if \<not> startsWith resolved ws then Inl (Error ''Access denied: Path is outside workspace'')
         else Inr resolved)"

subsection \<open>The functions of fs/promises\<close>

text \<open>
  The file system is a state of some type \<open>'fs\<close>, and the functions of \<open>fs/promises\<close>
  that the tools call are functions on it: those that write give the new state or
  reject, those that read give a value or reject. \<open>fs_mkdir\<close> is \<open>mkdir\<close> with
  \<open>{ recursive: true }\<close>, \<open>fs_readdir\<close> is \<open>readdir\<close> with \<open>{ withFileTypes: true }\<close>.
\<close>

record stats =
  st_size :: nat
  st_mtime :: string

record dirent =
  d_name :: string
  d_isDirectory :: bool

record 'fs fs_promises =
  fs_mkdir :: "string \<Rightarrow> 'fs \<Rightarrow> error + 'fs"
  fs_writeFile :: "string \<Rightarrow> string \<Rightarrow> 'fs \<Rightarrow> error + 'fs"
  fs_readFile :: "string \<Rightarrow> 'fs \<Rightarrow> error + string"
  fs_stat :: "string \<Rightarrow> 'fs \<Rightarrow> error + stats"
  fs_unlink :: "string \<Rightarrow> 'fs \<Rightarrow> error + 'fs"
  fs_readdir :: "string \<Rightarrow> 'fs \<Rightarrow> error + dirent list"

subsection \<open>The seven tools\<close>

text \<open>
  Each tool gives its result, or the exception it throws, together with the file system
  it leaves.
\<close>

record write_result =
  w_success :: bool
  w_path :: string
  w_size :: nat

definition writeFile ::
  "'fs fs_promises \<Rightarrow> string \<Rightarrow> string \<Rightarrow> string \<Rightarrow> string \<Rightarrow> 'fs \<Rightarrow> (error + write_result) \<times> 'fs" where
  "writeFile api cwd ws filePath text s =
     (case resolvePath cwd ws filePath of
        Inl e \<Rightarrow> (Inl e, s)
      | Inr fullPath \<Rightarrow>
          (case fs_mkdir api (path_dirname fullPath) s of
             Inl e \<Rightarrow> (Inl e, s)
           | Inr s1 \<Rightarrow>
               (case fs_writeFile api fullPath text s1 of
                  Inl e \<Rightarrow> (Inl e, s1)
                | Inr s2 \<Rightarrow>
                    (Inr \<lparr>w_success = True, w_path = filePath, w_size = length text\<rparr>, s2))))"

record read_result =
  rd_content :: string
  rd_path :: string
  rd_size :: nat

definition readFile ::
  "'fs fs_promises \<Rightarrow> string \<Rightarrow> string \<Rightarrow> string \<Rightarrow> 'fs \<Rightarrow> (error + read_result) \<times> 'fs" where
  "readFile api cwd ws filePath s =
     (case resolvePath cwd ws filePath of
        Inl e \<Rightarrow> (Inl e, s)
      | Inr fullPath \<Rightarrow>
          (case fs_readFile api fullPath s of
             Inl e \<Rightarrow> (Inl e, s)
           | Inr text \<Rightarrow>
               (case fs_stat api fullPath s of
                  Inl e \<Rightarrow> (Inl e, s)
                | Inr st \<Rightarrow>
                    (Inr \<lparr>rd_content = text, rd_path = filePath, rd_size = st_size st\<rparr>, s))))"

record path_result =
  p_success :: bool
  p_path :: string

text \<open>
  \<open>replace\<close> is the built-in \<open>String.prototype.replace\<close> with a string pattern;
  \<open>content.includes(oldText)\<close> is \<open>sublist oldText content\<close>.
\<close>

definition editFile ::
  "'fs fs_promises \<Rightarrow> (string \<Rightarrow> string \<Rightarrow> string \<Rightarrow> string) \<Rightarrow> string \<Rightarrow> string \<Rightarrow> string
    \<Rightarrow> string \<Rightarrow> string \<Rightarrow> 'fs \<Rightarrow> (error + path_result) \<times> 'fs" where
  "editFile api replace cwd ws filePath oldText newText s =
     (case resolvePath cwd ws filePath of
        Inl e \<Rightarrow> (Inl e, s)
      | Inr fullPath \<Rightarrow>
          (case fs_readFile api fullPath s of
             Inl e \<Rightarrow> (Inl e, s)
           | Inr text \<Rightarrow>
               if \<not> sublist oldText text then (Inl (Error ''Old text not found in file''), s)
               else
                 (case fs_writeFile api fullPath (replace text oldText newText) s of
                    Inl e \<Rightarrow> (Inl e, s)
                  | Inr s1 \<Rightarrow> (Inr \<lparr>p_success = True, p_path = filePath\<rparr>, s1))))"

definition deleteFile ::
  "'fs fs_promises \<Rightarrow> string \<Rightarrow> string \<Rightarrow> string \<Rightarrow> 'fs \<Rightarrow> (error + path_result) \<times> 'fs" where
  "deleteFile api cwd ws filePath s =
     (case resolvePath cwd ws filePath of
        Inl e \<Rightarrow> (Inl e, s)
      | Inr fullPath \<Rightarrow>
          (case fs_unlink api fullPath s of
             Inl e \<Rightarrow> (Inl e, s)
           | Inr s1 \<Rightarrow> (Inr \<lparr>p_success = True, p_path = filePath\<rparr>, s1)))"

definition createDirectory ::
  "'fs fs_promises \<Rightarrow> string \<Rightarrow> string \<Rightarrow> string \<Rightarrow> 'fs \<Rightarrow> (error + path_result) \<times> 'fs" where
  "createDirectory api cwd ws dirPath s =
     (case resolvePath cwd ws dirPath of
        Inl e \<Rightarrow> (Inl e, s)
      | Inr fullPath \<Rightarrow>
          (case fs_mkdir api fullPath s of
             Inl e \<Rightarrow> (Inl e, s)
           | Inr s1 \<Rightarrow> (Inr \<lparr>p_success = True, p_path = dirPath\<rparr>, s1)))"

record list_item =
  li_name :: string
  li_type :: string
  li_size :: nat
  li_modified :: string

record list_result =
  l_path :: string
  l_items :: "list_item list"

text \<open>The \<open>Promise.all\<close> over the entries: one \<open>stat\<close> for each, the first rejection being the result.\<close>

fun statEntries :: "'fs fs_promises \<Rightarrow> 'fs \<Rightarrow> string \<Rightarrow> dirent list \<Rightarrow> error + list_item list" where
  "statEntries api s fullPath [] = Inr []"
| "statEntries api s fullPath (entry # entries) =
     (case fs_stat api (path_join fullPath (d_name entry)) s of
        Inl e \<Rightarrow> Inl e
      | Inr st \<Rightarrow>
          (case statEntries api s fullPath entries of
             Inl e \<Rightarrow> Inl e
           | Inr items \<Rightarrow>
               Inr (\<lparr>li_name = d_name entry,
                     li_type = (if d_isDirectory entry then ''directory'' else ''file''),
                     li_size = st_size st, li_modified = st_mtime st\<rparr> # items)))"

definition listDirectory ::
  "'fs fs_promises \<Rightarrow> string \<Rightarrow> string \<Rightarrow> string \<Rightarrow> 'fs \<Rightarrow> (error + list_result) \<times> 'fs" where
  "listDirectory api cwd ws dirPath s =
     (case resolvePath cwd ws dirPath of
        Inl e \<Rightarrow> (Inl e, s)
      | Inr fullPath \<Rightarrow>
          (case fs_readdir api fullPath s of
             Inl e \<Rightarrow> (Inl e, s)
           | Inr entries \<Rightarrow>
               (case statEntries api s fullPath entries of
                  Inl e \<Rightarrow> (Inl e, s)
                | Inr items \<Rightarrow> (Inr \<lparr>l_path = dirPath, l_items = items\<rparr>, s))))"

text \<open>
  \<open>buildTree(currentPath, depth)\<close> of \<open>getDirectoryTree\<close>. The model counts the levels
  left, \<open>maxDepth - depth\<close>, rather than the depth: \<open>depth < maxDepth\<close> is \<open>0 < left\<close>, and
  the test \<open>depth > maxDepth\<close>, which can only hold at the first call, is made there. An
  item has the key \<open>children\<close> only when it is a directory above the last level.
\<close>

datatype tree_item = Item string string "tree_item list option"

fun buildTree :: "'fs fs_promises \<Rightarrow> 'fs \<Rightarrow> nat \<Rightarrow> string \<Rightarrow> error + tree_item list"
  and buildItems :: "'fs fs_promises \<Rightarrow> 'fs \<Rightarrow> nat \<Rightarrow> string \<Rightarrow> dirent list \<Rightarrow> error + tree_item list" where
  "buildTree api s left currentPath =
     (case fs_readdir api currentPath s of
        Inl e \<Rightarrow> Inl e
      | Inr entries \<Rightarrow> buildItems api s left currentPath entries)"
| "buildItems api s left currentPath [] = Inr []"
| "buildItems api s left currentPath (entry # entries) =
     (case (if d_isDirectory entry \<and> 0 < left
            then (case buildTree api s (left - 1) (path_join currentPath (d_name entry)) of
                    Inl e \<Rightarrow> Inl e
                  | Inr items \<Rightarrow> Inr (Some items))
            else Inr None) of
        Inl e \<Rightarrow> Inl e
      | Inr children \<Rightarrow>
          (case buildItems api s left currentPath entries of
             Inl e \<Rightarrow> Inl e
           | Inr items \<Rightarrow>
               Inr (Item (d_name entry) (if d_isDirectory entry then ''directory'' else ''file'')
                      children # items)))"

record tree_result =
  t_path :: string
  t_tree :: "tree_item list option"

definition getDirectoryTree ::
  "'fs fs_promises \<Rightarrow> string \<Rightarrow> string \<Rightarrow> string \<Rightarrow> int \<Rightarrow> 'fs \<Rightarrow> (error + tree_result) \<times> 'fs" where
  "getDirectoryTree api cwd ws dirPath maxDepth s =
     (case resolvePath cwd ws dirPath of
        Inl e \<Rightarrow> (Inl e, s)
      | Inr fullPath \<Rightarrow>
          if 0 > maxDepth then (Inr \<lparr>t_path = dirPath, t_tree = None\<rparr>, s)
          else
            (case buildTree api s (nat maxDepth) fullPath of
               Inl e \<Rightarrow> (Inl e, s)
             | Inr items \<Rightarrow> (Inr \<lparr>t_path = dirPath, t_tree = Some items\<rparr>, s)))"

section \<open>Concrete values for the examples\<close>

text \<open>
  The examples below need a concrete \<open>JSON.stringify\<close> and \<open>JSON.parse\<close>. These are the
  two built-ins restricted to two metadata objects, the empty object \<open>{}\<close> and
  \<open>{"env":"prod"}\<close>, with an object written as its list of key-value pairs.
\<close>

definition env_prod_text :: string where
  "env_prod_text = ''{'' @ [CHR 0x22] @ ''env'' @ [CHR 0x22] @ '':'' @ [CHR 0x22] @ ''prod'' @ [CHR 0x22] @ ''}''"

definition stringify2 :: "(string \<times> string) list \<Rightarrow> string" where
  "stringify2 m = (if m = [(''env'', ''prod'')] then env_prod_text else ''{}'')"

definition parse2 :: "string \<Rightarrow> (string \<times> string) list" where
  "parse2 t = (if t = env_prod_text then [(''env'', ''prod'')] else [])"

definition cfg :: entity where
  "cfg = \<lparr>e_id = ''id-1'', e_name = ''cfg'', e_type = ''project'', e_content = Some ''c1'',
          e_metadata = Some ''{}'', e_created_at = 10, e_updated_at = 10\<rparr>"

definition db1 :: db where
  "db1 = \<lparr>entities = [cfg], relations = []\<rparr>"

definition named_x :: entity where
  "named_x = \<lparr>e_id = ''a'', e_name = ''x'', e_type = ''t'', e_content = Some ''cA'',
              e_metadata = None, e_created_at = 1, e_updated_at = 1\<rparr>"

definition with_id_x :: entity where
  "with_id_x = \<lparr>e_id = ''x'', e_name = ''b'', e_type = ''t'', e_content = Some ''cB'',
                e_metadata = None, e_created_at = 2, e_updated_at = 2\<rparr>"

definition db2 :: db where
  "db2 = \<lparr>entities = [named_x, with_id_x], relations = []\<rparr>"

definition long_note :: entity where
  "long_note = \<lparr>e_id = ''id-9'', e_name = ''Alpha'', e_type = ''note'',
                e_content = Some (replicate 201 (CHR ''z'')), e_metadata = Some ''{}'',
                e_created_at = 5, e_updated_at = 7\<rparr>"

definition db3 :: db where
  "db3 = \<lparr>entities = [cfg, long_note], relations = []\<rparr>"

definition long_query :: string where
  "long_query = replicate 49999 (CHR ''a'')"

definition nul_query :: string where
  "nul_query = [CHR ''a'', CHR 0x00, CHR ''z'']"

definition banana :: entity where
  "banana = \<lparr>e_id = ''id-3'', e_name = ''banana'', e_type = ''fruit'', e_content = Some ''yellow'',
             e_metadata = Some ''{}'', e_created_at = 3, e_updated_at = 3\<rparr>"

definition db5 :: db where
  "db5 = \<lparr>entities = [banana], relations = []\<rparr>"

definition cfg_b :: entity where
  "cfg_b = \<lparr>e_id = ''id-4'', e_name = ''cfg-b'', e_type = ''project'', e_content = Some ''c4'',
            e_metadata = Some ''{}'', e_created_at = 10, e_updated_at = 10\<rparr>"

definition db6 :: db where
  "db6 = \<lparr>entities = [cfg, cfg_b], relations = []\<rparr>"

text \<open>The character U+1F600, and a text of 101 of it.\<close>

definition smiley :: string where
  "smiley = [CHR 0xF0, CHR 0x9F, CHR 0x98, CHR 0x80]"

definition smileys :: entity where
  "smileys = \<lparr>e_id = ''id-5'', e_name = ''smileys'', e_type = ''note'',
              e_content = Some (concat (replicate 101 smiley)), e_metadata = Some ''{}'',
              e_created_at = 4, e_updated_at = 4\<rparr>"

definition db7 :: db where
  "db7 = \<lparr>entities = [smileys], relations = []\<rparr>"

definition n1 :: entity where
  "n1 = \<lparr>e_id = ''A'', e_name = ''n1'', e_type = ''t'', e_content = Some ''c1'',
         e_metadata = Some ''{}'', e_created_at = 1, e_updated_at = 1\<rparr>"

definition n2 :: entity where
  "n2 = \<lparr>e_id = ''B'', e_name = ''n2'', e_type = ''t'', e_content = Some ''c2'',
         e_metadata = Some ''{}'', e_created_at = 2, e_updated_at = 2\<rparr>"

definition depends_on :: relation where
  "depends_on = \<lparr>r_id = ''R'', from_entity = ''A'', to_entity = ''B'',
                 relation_type = ''depends_on'', r_metadata = Some ''{}'', r_created_at = 3\<rparr>"

definition db4 :: db where
  "db4 = \<lparr>entities = [n1, n2], relations = [depends_on]\<rparr>"

definition s1 :: session where
  "s1 = \<lparr>transport = 1, server = 1\<rparr>"

definition s2 :: session where
  "s2 = \<lparr>transport = 2, server = 2\<rparr>"

definition reg1 :: registry where
  "reg1 = [''u1'' \<mapsto> s1]"

definition echo_body :: "string \<Rightarrow> string \<Rightarrow> error + string" where
  "echo_body name args = Inr args"

text \<open>A file system on which every function of \<open>fs/promises\<close> rejects.\<close>

definition failing_fs :: "unit fs_promises" where
  "failing_fs =
     \<lparr>fs_mkdir = (\<lambda>p s. Inl (Error ''EIO'')),
      fs_writeFile = (\<lambda>p t s. Inl (Error ''EIO'')),
      fs_readFile = (\<lambda>p s. Inl (Error ''EIO'')),
      fs_stat = (\<lambda>p s. Inl (Error ''EIO'')),
      fs_unlink = (\<lambda>p s. Inl (Error ''EIO'')),
      fs_readdir = (\<lambda>p s. Inl (Error ''EIO''))\<rparr>"

text \<open>
  \<open>String.prototype.replace\<close> for a replacement text without \<open>$\<close>: the first
  occurrence of the pattern is replaced.
\<close>

fun literal_replace :: "string \<Rightarrow> string \<Rightarrow> string \<Rightarrow> string" where
  "literal_replace [] oldText newText = (if oldText = [] then newText else [])"
| "literal_replace (c # cs) oldText newText =
     (if prefix oldText (c # cs) then newText @ drop (length oldText) (c # cs)
      else c # literal_replace cs oldText newText)"

section \<open>Properties of the store\<close>

lemma filter_none: "\<forall>x\<in>set xs. \<not> P x \<Longrightarrow> filter P xs = []"
  by (induction xs) auto

lemma map_unchanged: "\<forall>x\<in>set xs. \<not> P x \<Longrightarrow> map (\<lambda>x. if P x then f x else x) xs = xs"
  by (induction xs) auto

text \<open>
  C5. When \<open>k\<close> is the id of no entity, \<open>memoryUpdate\<close> returns \<open>updated = false\<close> and the
  store it leaves is the store it found: no entity is created, none is changed, and the
  relations are untouched.
\<close>

theorem memoryUpdate_absent:
  assumes "k \<notin> set (map e_id (entities d))"
  shows "memoryUpdate stringify now k content metadata d = (d, \<lparr>u_id = k, updated = False\<rparr>)"
proof -
  from assms have no: "\<forall>e\<in>set (entities d). \<not> e_id e = k" by auto
  have "filter (\<lambda>e. e_id e = k) (entities d) = []"
    using no by (rule filter_none)
  moreover have "map (\<lambda>e. if e_id e = k then update_row stringify now content metadata e else e)
                   (entities d) = entities d"
    using no by (rule map_unchanged)
  ultimately show ?thesis
    by (simp add: memoryUpdate_def)
qed

theorem memoryUpdate_absent_witness:
  "''id-2'' \<notin> set (map e_id (entities db1)) \<and>
   memoryUpdate stringify2 20 ''id-2'' (Some ''new'') None db1 = (db1, \<lparr>u_id = ''id-2'', updated = False\<rparr>)"
proof -
  have h: "''id-2'' \<notin> set (map e_id (entities db1))"
    by (simp add: db1_def cfg_def)
  show ?thesis
    using h memoryUpdate_absent [OF h, of stringify2 20 "Some ''new''" None] by simp
qed

lemma select_id_first:
  assumes "\<forall>e\<in>set es. e_id e \<noteq> k"
  shows "select_id_or_name k (es @ [x]) =
           (if e_id x = k then x # filter (\<lambda>e. e_name e = k) es
            else filter (\<lambda>e. e_name e = k) (es @ [x]))"
proof -
  have "filter (\<lambda>e. e_id e = k) es = []"
    using assms by (intro filter_none) simp
  moreover have "filter (\<lambda>e. e_name e = k \<and> e_id e \<noteq> k) es = filter (\<lambda>e. e_name e = k) es"
    using assms by (intro filter_cong) auto
  ultimately show ?thesis
    by (simp add: select_id_or_name_def)
qed

text \<open>
  C1. Whenever \<open>memoryStore\<close> returns, \<open>memoryRecall\<close> on the id it returned finds an entity
  with the stored name, type, content and metadata; and it does return whenever the id
  that \<open>randomUUID\<close> minted is the id of no stored entity. The metadata go through
  \<open>JSON.stringify\<close> and back through \<open>JSON.parse\<close>, so they are taken to be a value that
  this pair of built-ins gives back (as it does every JSON object), written as a
  non-empty text.
\<close>

theorem store_recall_roundtrip:
  assumes "parse (stringify metadata) = metadata" and "stringify metadata \<noteq> []"
  shows "(uuid \<notin> set (map e_id (entities d)) \<longrightarrow>
            (\<exists>d' res. memoryStore stringify uuid now name type content metadata d = Inr (d', res)))
       \<and> (\<forall>d' res. memoryStore stringify uuid now name type content metadata d = Inr (d', res) \<longrightarrow>
            (\<exists>r. memoryRecall parse (sr_id res) d' = Found r \<and> rc_id r = sr_id res
                 \<and> rc_name r = name \<and> rc_type r = type
                 \<and> rc_content r = content \<and> rc_metadata r = metadata))"
proof (intro conjI allI impI)
  assume "uuid \<notin> set (map e_id (entities d))"
  then show "\<exists>d' res. memoryStore stringify uuid now name type content metadata d = Inr (d', res)"
    by (simp add: memoryStore_def)
next
  fix d' res
  assume st: "memoryStore stringify uuid now name type content metadata d = Inr (d', res)"
  define new where "new = \<lparr>e_id = uuid, e_name = name, e_type = type, e_content = content,
                     e_metadata = Some (stringify metadata),
                     e_created_at = now, e_updated_at = now\<rparr>"
  from st have fresh: "uuid \<notin> set (map e_id (entities d))"
    by (auto simp: memoryStore_def split: if_splits)
  from st fresh have d': "entities d' = entities d @ [new]" and res: "sr_id res = uuid"
    by (auto simp: memoryStore_def new_def)
  from fresh have "\<forall>e\<in>set (entities d). e_id e \<noteq> uuid" by auto
  then have "select_id_or_name uuid (entities d @ [new]) = new # filter (\<lambda>e. e_name e = uuid) (entities d)"
    by (simp add: select_id_first new_def)
  then have "memoryRecall parse (sr_id res) d' = Found (recalled_of parse new)"
    by (simp add: memoryRecall_def d' res)
  moreover have "rc_metadata (recalled_of parse new) = metadata"
    using assms by (simp add: recalled_of_def new_def metadata_text_def)
  ultimately show "\<exists>r. memoryRecall parse (sr_id res) d' = Found r \<and> rc_id r = sr_id res
                 \<and> rc_name r = name \<and> rc_type r = type
                 \<and> rc_content r = content \<and> rc_metadata r = metadata"
    by (simp add: recalled_of_def new_def res)
qed

theorem store_recall_roundtrip_witness:
  "parse2 (stringify2 [(''env'', ''prod'')]) = [(''env'', ''prod'')]
   \<and> stringify2 [(''env'', ''prod'')] \<noteq> []
   \<and> ''id-2'' \<notin> set (map e_id (entities db1))
   \<and> (\<exists>d' res r. memoryStore stringify2 ''id-2'' 20 ''n2'' ''t'' (Some ''c2'') [(''env'', ''prod'')] db1
                     = Inr (d', res)
        \<and> memoryRecall parse2 (sr_id res) d' = Found r
        \<and> rc_content r = Some ''c2'' \<and> rc_metadata r = [(''env'', ''prod'')])"
proof -
  have h1: "parse2 (stringify2 [(''env'', ''prod'')]) = [(''env'', ''prod'')]"
    by (simp add: parse2_def stringify2_def)
  have h2: "stringify2 [(''env'', ''prod'')] \<noteq> []"
    by (simp add: stringify2_def env_prod_text_def)
  have h3: "''id-2'' \<notin> set (map e_id (entities db1))"
    by (simp add: db1_def cfg_def)
  note rt = store_recall_roundtrip [where parse = parse2 and stringify = stringify2
      and metadata = "[(''env'', ''prod'')]" and uuid = "''id-2''" and d = db1 and now = 20
      and name = "''n2''" and type = "''t''" and content = "Some ''c2''", OF h1 h2]
  from rt h3 obtain d' res where
    st: "memoryStore stringify2 ''id-2'' 20 ''n2'' ''t'' (Some ''c2'') [(''env'', ''prod'')] db1 = Inr (d', res)"
    by blast
  with rt obtain r where "memoryRecall parse2 (sr_id res) d' = Found r"
    "rc_content r = Some ''c2''" "rc_metadata r = [(''env'', ''prod'')]"
    by blast
  with st h1 h2 h3 show ?thesis by blast
qed

text \<open>
  C3. \<open>memoryRecall\<close> looks \<open>nameOrId\<close> up as an id and as a name, and an id match wins:
  when some entity has this id, the result is found and carries the id, name, type,
  content, parsed metadata and timestamps of an entity with this id, also when another
  entity has it as its name; when no entity has this id but some have this name, the
  result carries the fields of one of these; when no entity matches, the result is
  \<open>{found: false}\<close>, a value and not an exception.
\<close>

theorem memoryRecall_id_then_name:
  "((\<exists>e\<in>set (entities d). e_id e = k) \<longrightarrow>
      (\<exists>e\<in>set (entities d). \<exists>r. e_id e = k \<and> memoryRecall parse k d = Found r
         \<and> rc_id r = k \<and> rc_name r = e_name e \<and> rc_type r = e_type e
         \<and> rc_content r = e_content e
         \<and> rc_metadata r =
               parse (case e_metadata e of None \<Rightarrow> ''{}'' | Some t \<Rightarrow> if t = [] then ''{}'' else t)
         \<and> rc_created_at r = e_created_at e \<and> rc_updated_at r = e_updated_at e))
   \<and> ((\<forall>e\<in>set (entities d). e_id e \<noteq> k) \<and> (\<exists>e\<in>set (entities d). e_name e = k) \<longrightarrow>
      (\<exists>e\<in>set (entities d). \<exists>r. e_name e = k \<and> memoryRecall parse k d = Found r
         \<and> rc_id r = e_id e \<and> rc_name r = k \<and> rc_type r = e_type e
         \<and> rc_content r = e_content e
         \<and> rc_metadata r =
               parse (case e_metadata e of None \<Rightarrow> ''{}'' | Some t \<Rightarrow> if t = [] then ''{}'' else t)
         \<and> rc_created_at r = e_created_at e \<and> rc_updated_at r = e_updated_at e))
   \<and> ((\<forall>e\<in>set (entities d). e_id e \<noteq> k \<and> e_name e \<noteq> k) \<longrightarrow>
      memoryRecall parse k d = NotFound)"
proof (intro conjI impI)
  assume "\<exists>e\<in>set (entities d). e_id e = k"
  then have "filter (\<lambda>e. e_id e = k) (entities d) \<noteq> []"
    by (simp add: filter_empty_conv)
  then obtain e rest where f: "filter (\<lambda>e. e_id e = k) (entities d) = e # rest"
    by (cases "filter (\<lambda>e. e_id e = k) (entities d)") auto
  then have "e \<in> set (filter (\<lambda>e. e_id e = k) (entities d))" by simp
  then have e: "e \<in> set (entities d)" "e_id e = k" by auto
  have r: "memoryRecall parse k d = Found (recalled_of parse e)"
    by (simp add: memoryRecall_def select_id_or_name_def f)
  have "e_id e = k \<and> memoryRecall parse k d = Found (recalled_of parse e)
         \<and> rc_id (recalled_of parse e) = k \<and> rc_name (recalled_of parse e) = e_name e
         \<and> rc_type (recalled_of parse e) = e_type e
         \<and> rc_content (recalled_of parse e) = e_content e
         \<and> rc_metadata (recalled_of parse e) =
               parse (case e_metadata e of None \<Rightarrow> ''{}'' | Some t \<Rightarrow> if t = [] then ''{}'' else t)
         \<and> rc_created_at (recalled_of parse e) = e_created_at e
         \<and> rc_updated_at (recalled_of parse e) = e_updated_at e"
    using e r by (simp add: recalled_of_def metadata_text_def)
  with e(1) show "\<exists>e\<in>set (entities d). \<exists>r. e_id e = k \<and> memoryRecall parse k d = Found r
         \<and> rc_id r = k \<and> rc_name r = e_name e \<and> rc_type r = e_type e
         \<and> rc_content r = e_content e
         \<and> rc_metadata r =
               parse (case e_metadata e of None \<Rightarrow> ''{}'' | Some t \<Rightarrow> if t = [] then ''{}'' else t)
         \<and> rc_created_at r = e_created_at e \<and> rc_updated_at r = e_updated_at e"
    by blast
next
  assume a: "(\<forall>e\<in>set (entities d). e_id e \<noteq> k) \<and> (\<exists>e\<in>set (entities d). e_name e = k)"
  then have none: "filter (\<lambda>e. e_id e = k) (entities d) = []"
    by (intro filter_none) simp
  from a have "filter (\<lambda>e. e_name e = k \<and> e_id e \<noteq> k) (entities d) \<noteq> []"
    by (auto simp: filter_empty_conv)
  then obtain e rest where f: "filter (\<lambda>e. e_name e = k \<and> e_id e \<noteq> k) (entities d) = e # rest"
    by (cases "filter (\<lambda>e. e_name e = k \<and> e_id e \<noteq> k) (entities d)") auto
  then have "e \<in> set (filter (\<lambda>e. e_name e = k \<and> e_id e \<noteq> k) (entities d))" by simp
  then have e: "e \<in> set (entities d)" "e_name e = k" by auto
  have r: "memoryRecall parse k d = Found (recalled_of parse e)"
    by (simp add: memoryRecall_def select_id_or_name_def none f)
  have "e_name e = k \<and> memoryRecall parse k d = Found (recalled_of parse e)
         \<and> rc_id (recalled_of parse e) = e_id e \<and> rc_name (recalled_of parse e) = k
         \<and> rc_type (recalled_of parse e) = e_type e
         \<and> rc_content (recalled_of parse e) = e_content e
         \<and> rc_metadata (recalled_of parse e) =
               parse (case e_metadata e of None \<Rightarrow> ''{}'' | Some t \<Rightarrow> if t = [] then ''{}'' else t)
         \<and> rc_created_at (recalled_of parse e) = e_created_at e
         \<and> rc_updated_at (recalled_of parse e) = e_updated_at e"
    using e r by (simp add: recalled_of_def metadata_text_def)
  with e(1) show "\<exists>e\<in>set (entities d). \<exists>r. e_name e = k \<and> memoryRecall parse k d = Found r
         \<and> rc_id r = e_id e \<and> rc_name r = k \<and> rc_type r = e_type e
         \<and> rc_content r = e_content e
         \<and> rc_metadata r =
               parse (case e_metadata e of None \<Rightarrow> ''{}'' | Some t \<Rightarrow> if t = [] then ''{}'' else t)
         \<and> rc_created_at r = e_created_at e \<and> rc_updated_at r = e_updated_at e"
    by blast
next
  assume a: "\<forall>e\<in>set (entities d). e_id e \<noteq> k \<and> e_name e \<noteq> k"
  then have "filter (\<lambda>e. e_id e = k) (entities d) = []"
    by (intro filter_none) simp
  moreover from a have "filter (\<lambda>e. e_name e = k \<and> e_id e \<noteq> k) (entities d) = []"
    by (intro filter_none) simp
  ultimately show "memoryRecall parse k d = NotFound"
    by (simp add: memoryRecall_def select_id_or_name_def)
qed

theorem memoryRecall_id_then_name_witness:
  "''x'' \<in> set (map e_id (entities db2)) \<and> ''x'' \<in> set (map e_name (entities db2))
   \<and> memoryRecall parse2 ''x'' db2 =
       Found \<lparr>rc_id = ''x'', rc_name = ''b'', rc_type = ''t'', rc_content = Some ''cB'',
              rc_metadata = [], rc_created_at = 2, rc_updated_at = 2\<rparr>
   \<and> ''b'' \<notin> set (map e_id (entities db2)) \<and> ''b'' \<in> set (map e_name (entities db2))
   \<and> memoryRecall parse2 ''b'' db2 =
       Found \<lparr>rc_id = ''x'', rc_name = ''b'', rc_type = ''t'', rc_content = Some ''cB'',
              rc_metadata = [], rc_created_at = 2, rc_updated_at = 2\<rparr>
   \<and> ''zz'' \<notin> set (map e_id (entities db2)) \<and> ''zz'' \<notin> set (map e_name (entities db2))
   \<and> memoryRecall parse2 ''zz'' db2 = NotFound"
proof -
  have ids: "map e_id (entities db2) = [''a'', ''x'']"
    and names: "map e_name (entities db2) = [''x'', ''b'']"
    by (simp_all add: db2_def named_x_def with_id_x_def)
  have i: "\<exists>e\<in>set (entities db2). e_id e = ''x''"
    by (simp add: db2_def named_x_def with_id_x_def)
  have b: "(\<forall>e\<in>set (entities db2). e_id e \<noteq> ''b'') \<and> (\<exists>e\<in>set (entities db2). e_name e = ''b'')"
    by (simp add: db2_def named_x_def with_id_x_def)
  have z: "\<forall>e\<in>set (entities db2). e_id e \<noteq> ''zz'' \<and> e_name e \<noteq> ''zz''"
    by (simp add: db2_def named_x_def with_id_x_def)
  have p: "parse2 ''{}'' = []"
    by (simp add: parse2_def env_prod_text_def)
  from i memoryRecall_id_then_name [of db2 "''x''" parse2]
  obtain e r where "e \<in> set (entities db2)" "e_id e = ''x''"
    "memoryRecall parse2 ''x'' db2 = Found r"
    "rc_id r = ''x''" "rc_name r = e_name e" "rc_type r = e_type e" "rc_content r = e_content e"
    "rc_metadata r = parse2 (case e_metadata e of None \<Rightarrow> ''{}'' | Some t \<Rightarrow> if t = [] then ''{}'' else t)"
    "rc_created_at r = e_created_at e" "rc_updated_at r = e_updated_at e"
    by blast
  then have rx: "memoryRecall parse2 ''x'' db2 =
       Found \<lparr>rc_id = ''x'', rc_name = ''b'', rc_type = ''t'', rc_content = Some ''cB'',
              rc_metadata = [], rc_created_at = 2, rc_updated_at = 2\<rparr>"
    using p by (cases r) (auto simp: db2_def named_x_def with_id_x_def)
  from b memoryRecall_id_then_name [of db2 "''b''" parse2]
  obtain e r where "e \<in> set (entities db2)" "e_name e = ''b''"
    "memoryRecall parse2 ''b'' db2 = Found r"
    "rc_id r = e_id e" "rc_name r = ''b''" "rc_type r = e_type e" "rc_content r = e_content e"
    "rc_metadata r = parse2 (case e_metadata e of None \<Rightarrow> ''{}'' | Some t \<Rightarrow> if t = [] then ''{}'' else t)"
    "rc_created_at r = e_created_at e" "rc_updated_at r = e_updated_at e"
    by blast
  then have rb: "memoryRecall parse2 ''b'' db2 =
       Found \<lparr>rc_id = ''x'', rc_name = ''b'', rc_type = ''t'', rc_content = Some ''cB'',
              rc_metadata = [], rc_created_at = 2, rc_updated_at = 2\<rparr>"
    using p by (cases r) (auto simp: db2_def named_x_def with_id_x_def)
  from z memoryRecall_id_then_name [of db2 "''zz''" parse2]
  have rz: "memoryRecall parse2 ''zz'' db2 = NotFound" by blast
  from rx rb rz show ?thesis by (simp add: ids names)
qed

subsection \<open>LIKE against a plain substring test\<close>

lemma length_skip_char: "s \<noteq> [] \<Longrightarrow> length (skip_char s) < length s"
proof -
  assume "s \<noteq> []"
  then obtain b bs where "s = b # bs" by (cases s) auto
  moreover have "length (dropWhile continuation bs) \<le> length bs"
    by (rule length_dropWhile_le)
  ultimately show ?thesis
    by (simp add: skip_char_def)
qed

lemma suffix_skip_char: "suffix (skip_char s) s"
proof (cases s)
  case Nil
  then show ?thesis by (simp add: skip_char_def)
next
  case (Cons b bs)
  have "suffix (dropWhile continuation bs) (b # bs)"
    by (rule suffix_ConsI) (rule suffix_dropWhile)
  then show ?thesis
    using Cons by (simp add: skip_char_def suffix_ConsI)
qed

lemma sql_like_percent: "sql_like ''%'' s"
proof (induction s rule: length_induct)
  case (1 s)
  show ?case
  proof (cases s)
    case Nil
    then show ?thesis by simp
  next
    case (Cons c t)
    then have "s \<noteq> []" by simp
    then have "length (skip_char s) < length s"
      by (rule length_skip_char)
    with 1 have "sql_like ''%'' (skip_char s)" by blast
    with Cons show ?thesis by simp
  qed
qed

lemma sql_like_literal:
  "wildcard_free q \<Longrightarrow> sql_like (q @ ''%'') s = ci_prefix q s"
proof (induction q arbitrary: s)
  case Nil
  show ?case using sql_like_percent by simp
next
  case (Cons a q)
  then have a: "a \<noteq> CHR ''%''" "a \<noteq> CHR ''_''" and q: "wildcard_free q"
    by (auto simp: wildcard_free_def)
  show ?case
  proof (cases s)
    case Nil
    with a show ?thesis by simp
  next
    case (Cons c t)
    with a Cons.IH [OF q, of t] show ?thesis by simp
  qed
qed

lemma ci_prefix_iff:
  "ci_prefix q s \<longleftrightarrow> (\<exists>mid post. s = mid @ post \<and> map toLowerAscii mid = map toLowerAscii q)"
proof (induction q s rule: ci_prefix.induct)
  case (1 s)
  show ?case by simp
next
  case (2 q qs)
  show ?case by simp
next
  case (3 q qs c cs)
  show ?case
  proof
    assume "ci_prefix (q # qs) (c # cs)"
    then obtain mid post where "toLowerAscii q = toLowerAscii c" "cs = mid @ post"
      "map toLowerAscii mid = map toLowerAscii qs"
      using 3 by auto
    then have "c # cs = (c # mid) @ post \<and> map toLowerAscii (c # mid) = map toLowerAscii (q # qs)"
      by simp
    then show "\<exists>mid post. c # cs = mid @ post \<and> map toLowerAscii mid = map toLowerAscii (q # qs)"
      by blast
  next
    assume "\<exists>mid post. c # cs = mid @ post \<and> map toLowerAscii mid = map toLowerAscii (q # qs)"
    then obtain mid post where m: "c # cs = mid @ post" "map toLowerAscii mid = map toLowerAscii (q # qs)"
      by blast
    then obtain m ms where mid: "mid = m # ms" by (cases mid) auto
    with m have "m = c" "cs = ms @ post" "toLowerAscii m = toLowerAscii q"
      "map toLowerAscii ms = map toLowerAscii qs" by auto
    then show "ci_prefix (q # qs) (c # cs)" using 3 by auto
  qed
qed

lemma ci_substring_iff:
  "ci_substring q s \<longleftrightarrow>
     (\<exists>pre mid post. s = pre @ mid @ post \<and> map toLowerAscii mid = map toLowerAscii q)"
proof (induction s)
  case Nil
  show ?case by (auto simp: ci_prefix_iff)
next
  case (Cons c t)
  show ?case
  proof
    assume "ci_substring q (c # t)"
    then consider "ci_prefix q (c # t)" | "ci_substring q t" by auto
    then show "\<exists>pre mid post. c # t = pre @ mid @ post \<and> map toLowerAscii mid = map toLowerAscii q"
    proof cases
      case 1
      then obtain mid post where "c # t = [] @ mid @ post" "map toLowerAscii mid = map toLowerAscii q"
        by (auto simp: ci_prefix_iff)
      then show ?thesis by blast
    next
      case 2
      then obtain pre mid post where "t = pre @ mid @ post" "map toLowerAscii mid = map toLowerAscii q"
        using Cons by blast
      then have "c # t = (c # pre) @ mid @ post \<and> map toLowerAscii mid = map toLowerAscii q" by simp
      then show ?thesis by blast
    qed
  next
    assume "\<exists>pre mid post. c # t = pre @ mid @ post \<and> map toLowerAscii mid = map toLowerAscii q"
    then obtain pre mid post where m: "c # t = pre @ mid @ post" "map toLowerAscii mid = map toLowerAscii q"
      by blast
    show "ci_substring q (c # t)"
    proof (cases pre)
      case Nil
      with m have "ci_prefix q (c # t)" by (auto simp: ci_prefix_iff)
      then show ?thesis by simp
    next
      case (Cons p pre')
      with m have "t = pre' @ mid @ post" by simp
      with m have "ci_substring q t" using Cons.IH by blast
      then show ?thesis by simp
    qed
  qed
qed

lemma ci_prefix_substring: "ci_prefix q s \<Longrightarrow> ci_substring q s"
  by (cases s) auto

lemma ci_substring_suffix:
  assumes "suffix t s" and "ci_substring q t"
  shows "ci_substring q s"
proof -
  from assms(1) obtain front where s: "s = front @ t"
    unfolding suffix_def by blast
  from assms(2) obtain pre mid post where
    t: "t = pre @ mid @ post" and m: "map toLowerAscii mid = map toLowerAscii q"
    unfolding ci_substring_iff by blast
  from s t have "s = (front @ pre) @ mid @ post" by simp
  with m show ?thesis
    unfolding ci_substring_iff by blast
qed

text \<open>
  A pattern \<open>%q%\<close> whose \<open>q\<close> has no wildcard matches only texts that contain \<open>q\<close>. (It
  need not match every such text: \<open>%\<close> steps over whole characters.)
\<close>

lemma sql_like_substring:
  assumes "wildcard_free q"
  shows "sql_like (''%'' @ q @ ''%'') s \<Longrightarrow> ci_substring q s"
proof (induction s rule: length_induct)
  case (1 s)
  show ?case
  proof (cases s)
    case Nil
    with "1.prems" have "sql_like (q @ ''%'') []" by simp
    then have "ci_prefix q []"
      by (simp add: sql_like_literal [OF assms])
    with Nil show ?thesis by simp
  next
    case (Cons c t)
    with "1.prems" have "sql_like (q @ ''%'') s \<or> sql_like (''%'' @ q @ ''%'') (skip_char s)"
      by simp
    then show ?thesis
    proof
      assume "sql_like (q @ ''%'') s"
      then have "ci_prefix q s"
        by (simp add: sql_like_literal [OF assms])
      then show ?thesis by (rule ci_prefix_substring)
    next
      assume a: "sql_like (''%'' @ q @ ''%'') (skip_char s)"
      from Cons have "s \<noteq> []" by simp
      then have "length (skip_char s) < length s"
        by (rule length_skip_char)
      with a "1.IH" have "ci_substring q (skip_char s)" by blast
      with suffix_skip_char show ?thesis by (rule ci_substring_suffix)
    qed
  qed
qed

subsection \<open>The strings of JavaScript on ASCII text\<close>

lemma utf16_units_ascii: "(of_char b :: nat) < 128 \<Longrightarrow> utf16_units b = 1 \<and> \<not> continuation b"
  by (simp add: utf16_units_def continuation_def)

lemma js_substring_ascii:
  "\<forall>b\<in>set c. (of_char b :: nat) < 128 \<Longrightarrow> js_substring n c = take n c"
proof (induction c arbitrary: n)
  case Nil
  show ?case by simp
next
  case (Cons b c)
  then have b: "utf16_units b = 1" "\<not> continuation b" and c: "\<forall>b\<in>set c. (of_char b :: nat) < 128"
    by (simp_all add: utf16_units_ascii)
  show ?case
  proof (cases n)
    case 0
    with b show ?thesis by simp
  next
    case (Suc m)
    with b Cons.IH [OF c, of m] show ?thesis by simp
  qed
qed

lemma js_length_ascii:
  "\<forall>b\<in>set c. (of_char b :: nat) < 128 \<Longrightarrow> js_length c = length c"
  by (induction c) (simp_all add: js_length_def utf16_units_ascii)

subsection \<open>memorySearch\<close>

lemma ci_substring_takeWhile:
  assumes "ci_substring q (takeWhile P s)"
  shows "ci_substring q s"
proof -
  from assms obtain pre mid post where
    t: "takeWhile P s = pre @ mid @ post" and m: "map toLowerAscii mid = map toLowerAscii q"
    unfolding ci_substring_iff by blast
  have "s = takeWhile P s @ dropWhile P s" by simp
  with t have "s = pre @ mid @ (post @ dropWhile P s)" by simp
  with m show ?thesis
    unfolding ci_substring_iff by blast
qed

lemma upto_nul_pattern:
  "CHR 0x00 \<notin> set q \<Longrightarrow> upto_nul (''%'' @ q @ ''%'') = ''%'' @ q @ ''%''"
proof -
  assume "CHR 0x00 \<notin> set q"
  then have "\<forall>c\<in>set (''%'' @ q @ ''%''). c \<noteq> CHR 0x00" by auto
  then show ?thesis
    unfolding upto_nul_def by (intro takeWhile_eq_all_conv [THEN iffD2]) 
qed

lemma like_plain_query:
  assumes "wildcard_free q" and "CHR 0x00 \<notin> set q"
    and "sql_like (upto_nul (''%'' @ q @ ''%'')) (upto_nul s)"
  shows "ci_substring q s"
proof -
  from assms(2) have eq: "upto_nul (''%'' @ q @ ''%'') = ''%'' @ q @ ''%''"
    by (rule upto_nul_pattern)
  from assms(3) have "sql_like (''%'' @ q @ ''%'') (upto_nul s)"
    unfolding eq .
  with assms(1) have "ci_substring q (upto_nul s)"
    by (rule sql_like_substring)
  then show ?thesis
    unfolding upto_nul_def by (rule ci_substring_takeWhile)
qed

text \<open>The value of the \<open>WHERE\<close> clause's first factor on a row, where it has one.\<close>

lemma row_matches_eq:
  "row_matches pattern e =
     (if 50000 < length pattern then Inl (SQLITE_ERROR ''LIKE or GLOB pattern too complex'')
      else Inr (sql_like (upto_nul pattern) (upto_nul (e_name e))
                \<or> (\<exists>c. e_content e = Some c \<and> sql_like (upto_nul pattern) (upto_nul c))))"
  by (auto simp: row_matches_def like_operator_def split: option.splits)

lemma select_rows_eq:
  "select_rows pattern es =
     (if 50000 < length pattern \<and> es \<noteq> []
      then Inl (SQLITE_ERROR ''LIKE or GLOB pattern too complex'')
      else Inr (filter (\<lambda>e. sql_like (upto_nul pattern) (upto_nul (e_name e))
                \<or> (\<exists>c. e_content e = Some c \<and> sql_like (upto_nul pattern) (upto_nul c))) es))"
proof (induction es)
  case Nil
  show ?case by simp
next
  case (Cons e es)
  show ?case
  proof (cases "50000 < length pattern")
    case True
    then show ?thesis by (simp add: row_matches_eq)
  next
    case False
    with Cons show ?thesis by (simp add: row_matches_eq)
  qed
qed

lemma sorted_desc_take:
  "sorted_wrt (\<lambda>a b. e_updated_at b \<le> e_updated_at a) (take n (order_by_updated_at_desc es))"
proof -
  let ?key = "\<lambda>e. - int (e_updated_at e)"
  have "sorted (map ?key (order_by_updated_at_desc es))"
    unfolding order_by_updated_at_desc_def by (rule sorted_sort_key)
  then have "sorted (take n (map ?key (order_by_updated_at_desc es)))"
    by (rule sorted_wrt_take)
  then have "sorted (map ?key (take n (order_by_updated_at_desc es)))"
    by (simp add: take_map)
  then show ?thesis
    by (simp add: sorted_map)
qed

lemma memorySearch_rows:
  assumes "memorySearch q t d = Inr res"
  obtains es where
    "res = \<lparr>s_count = length es, s_entities = map search_row_of es\<rparr>"
    "length es \<le> 50"
    "sorted_wrt (\<lambda>a b. e_updated_at b \<le> e_updated_at a) es"
    "\<forall>e\<in>set es. e \<in> set (entities d) \<and> of_type t e
       \<and> (sql_like (upto_nul (''%'' @ q @ ''%'')) (upto_nul (e_name e))
            \<or> (\<exists>c. e_content e = Some c \<and> sql_like (upto_nul (''%'' @ q @ ''%'')) (upto_nul c)))"
proof -
  let ?m = "\<lambda>e. sql_like (upto_nul (''%'' @ q @ ''%'')) (upto_nul (e_name e))
            \<or> (\<exists>c. e_content e = Some c \<and> sql_like (upto_nul (''%'' @ q @ ''%'')) (upto_nul c))"
  let ?cands = "filter (of_type t) (entities d)"
  let ?es = "take 50 (order_by_updated_at_desc (filter ?m ?cands))"
  from assms have sel: "select_rows (''%'' @ q @ ''%'') ?cands = Inr (filter ?m ?cands)"
    unfolding memorySearch_def select_rows_eq by (simp split: if_splits)
  with assms have res: "res = \<lparr>s_count = length ?es, s_entities = map search_row_of ?es\<rparr>"
    by (simp add: memorySearch_def Let_def)
  have len: "length ?es \<le> 50" by simp
  have srt: "sorted_wrt (\<lambda>a b. e_updated_at b \<le> e_updated_at a) ?es"
    by (rule sorted_desc_take)
  have mem: "\<forall>e\<in>set ?es. e \<in> set (entities d) \<and> of_type t e \<and> ?m e"
  proof
    fix e assume "e \<in> set ?es"
    then have "e \<in> set (order_by_updated_at_desc (filter ?m ?cands))"
      by (rule in_set_takeD)
    then show "e \<in> set (entities d) \<and> of_type t e \<and> ?m e"
      by (simp add: order_by_updated_at_desc_def)
  qed
  from res len srt mem show ?thesis by (rule that)
qed

text \<open>
  C4, as the code has it. \<open>memorySearch\<close> returns a result whenever the pattern
  \<open>%query%\<close> has at most 50000 bytes, and raises \<open>LIKE or GLOB pattern too complex\<close>
  when it has more and some stored entity passes the type filter. A result has at most
  50 rows, \<open>count\<close> being their number, in non-increasing order of \<open>updated_at\<close>. Each row
  carries the id, name, type and \<open>updated_at\<close> of a stored entity whose name or (non-null)
  content, read up to its first NUL, matches the \<open>LIKE\<close> pattern \<open>%query%\<close>, itself read up
  to its first NUL, and whose type is the type argument when that is a non-empty string.
  When the query has no \<open>%\<close>, \<open>_\<close> or NUL in it, such a name or content contains the
  query, ASCII letter case aside. The content of a row is the first 200 UTF-16 code
  units of a non-null content, followed by \<open>...\<close> when the content has more; for an
  ASCII content these are its first 200 characters.
\<close>

theorem memorySearch_like:
  "(length q + 2 \<le> 50000 \<longrightarrow> (\<exists>res. memorySearch q t d = Inr res))
   \<and> (50000 < length q + 2
        \<and> (\<exists>e\<in>set (entities d). \<forall>ty. t = Some ty \<and> ty \<noteq> [] \<longrightarrow> e_type e = ty) \<longrightarrow>
        memorySearch q t d = Inl (SQLITE_ERROR ''LIKE or GLOB pattern too complex''))
   \<and> (\<forall>res. memorySearch q t d = Inr res \<longrightarrow>
        s_count res = length (s_entities res)
      \<and> length (s_entities res) \<le> 50
      \<and> sorted_wrt (\<lambda>a b. s_updated_at b \<le> s_updated_at a) (s_entities res)
      \<and> (\<forall>row\<in>set (s_entities res). \<exists>e\<in>set (entities d).
            s_id row = e_id e \<and> s_name row = e_name e \<and> s_type row = e_type e
          \<and> s_updated_at row = e_updated_at e
          \<and> (sql_like (upto_nul (''%'' @ q @ ''%'')) (upto_nul (e_name e))
               \<or> (\<exists>c. e_content e = Some c
                      \<and> sql_like (upto_nul (''%'' @ q @ ''%'')) (upto_nul c)))
          \<and> (wildcard_free q \<and> CHR 0x00 \<notin> set q \<longrightarrow>
               ci_substring q (e_name e) \<or> (\<exists>c. e_content e = Some c \<and> ci_substring q c))
          \<and> (\<forall>ty. t = Some ty \<and> ty \<noteq> [] \<longrightarrow> e_type e = ty)
          \<and> (\<forall>c. e_content e = Some c \<longrightarrow>
               s_content row = js_substring 200 c @ (if 200 < js_length c then ''...'' else []))
          \<and> (\<forall>c. e_content e = Some c \<and> (\<forall>b\<in>set c. (of_char b :: nat) < 128) \<longrightarrow>
               s_content row = take 200 c @ (if 200 < length c then ''...'' else []))))"
proof (intro conjI allI impI)
  assume "length q + 2 \<le> 50000"
  then show "\<exists>res. memorySearch q t d = Inr res"
    by (simp add: memorySearch_def select_rows_eq Let_def)
next
  assume a: "50000 < length q + 2
        \<and> (\<exists>e\<in>set (entities d). \<forall>ty. t = Some ty \<and> ty \<noteq> [] \<longrightarrow> e_type e = ty)"
  then obtain e where e: "e \<in> set (entities d)"
    "\<forall>ty. t = Some ty \<and> ty \<noteq> [] \<longrightarrow> e_type e = ty"
    by blast
  from e(2) have "of_type t e"
    by (cases t) (auto simp: of_type_def)
  with e(1) have "filter (of_type t) (entities d) \<noteq> []"
    by (auto simp: filter_empty_conv)
  with a show "memorySearch q t d = Inl (SQLITE_ERROR ''LIKE or GLOB pattern too complex'')"
    by (simp add: memorySearch_def select_rows_eq)
next
  fix res
  assume r: "memorySearch q t d = Inr res"
  from r obtain es where res: "res = \<lparr>s_count = length es, s_entities = map search_row_of es\<rparr>"
    and len: "length es \<le> 50"
    and srt: "sorted_wrt (\<lambda>a b. e_updated_at b \<le> e_updated_at a) es"
    and mem: "\<forall>e\<in>set es. e \<in> set (entities d) \<and> of_type t e
       \<and> (sql_like (upto_nul (''%'' @ q @ ''%'')) (upto_nul (e_name e))
            \<or> (\<exists>c. e_content e = Some c \<and> sql_like (upto_nul (''%'' @ q @ ''%'')) (upto_nul c)))"
    by (rule memorySearch_rows)
  show "s_count res = length (s_entities res)"
    by (simp add: res)
  show "length (s_entities res) \<le> 50"
    using len by (simp add: res)
  have "sorted_wrt (\<lambda>a b. s_updated_at (search_row_of b) \<le> s_updated_at (search_row_of a)) es"
    using srt by (simp add: search_row_of_def)
  then show "sorted_wrt (\<lambda>a b. s_updated_at b \<le> s_updated_at a) (s_entities res)"
    by (simp add: res sorted_wrt_map)
  show "\<forall>row\<in>set (s_entities res). \<exists>e\<in>set (entities d).
            s_id row = e_id e \<and> s_name row = e_name e \<and> s_type row = e_type e
          \<and> s_updated_at row = e_updated_at e
          \<and> (sql_like (upto_nul (''%'' @ q @ ''%'')) (upto_nul (e_name e))
               \<or> (\<exists>c. e_content e = Some c
                      \<and> sql_like (upto_nul (''%'' @ q @ ''%'')) (upto_nul c)))
          \<and> (wildcard_free q \<and> CHR 0x00 \<notin> set q \<longrightarrow>
               ci_substring q (e_name e) \<or> (\<exists>c. e_content e = Some c \<and> ci_substring q c))
          \<and> (\<forall>ty. t = Some ty \<and> ty \<noteq> [] \<longrightarrow> e_type e = ty)
          \<and> (\<forall>c. e_content e = Some c \<longrightarrow>
               s_content row = js_substring 200 c @ (if 200 < js_length c then ''...'' else []))
          \<and> (\<forall>c. e_content e = Some c \<and> (\<forall>b\<in>set c. (of_char b :: nat) < 128) \<longrightarrow>
               s_content row = take 200 c @ (if 200 < length c then ''...'' else []))"
  proof
    fix row
    assume "row \<in> set (s_entities res)"
    then obtain e where e: "e \<in> set es" and row: "row = search_row_of e"
      by (auto simp: res)
    from e mem have ed: "e \<in> set (entities d)" and ty: "of_type t e"
      and like: "sql_like (upto_nul (''%'' @ q @ ''%'')) (upto_nul (e_name e))
            \<or> (\<exists>c. e_content e = Some c \<and> sql_like (upto_nul (''%'' @ q @ ''%'')) (upto_nul c))"
      by auto
    have fields: "s_id row = e_id e \<and> s_name row = e_name e \<and> s_type row = e_type e
          \<and> s_updated_at row = e_updated_at e"
      by (simp add: row search_row_of_def)
    have sub: "wildcard_free q \<and> CHR 0x00 \<notin> set q \<longrightarrow>
               ci_substring q (e_name e) \<or> (\<exists>c. e_content e = Some c \<and> ci_substring q c)"
    proof
      assume p: "wildcard_free q \<and> CHR 0x00 \<notin> set q"
      from like show "ci_substring q (e_name e) \<or> (\<exists>c. e_content e = Some c \<and> ci_substring q c)"
      proof
        assume "sql_like (upto_nul (''%'' @ q @ ''%'')) (upto_nul (e_name e))"
        with p have "ci_substring q (e_name e)" by (intro like_plain_query) auto
        then show ?thesis ..
      next
        assume "\<exists>c. e_content e = Some c \<and> sql_like (upto_nul (''%'' @ q @ ''%'')) (upto_nul c)"
        then obtain c where c: "e_content e = Some c"
          "sql_like (upto_nul (''%'' @ q @ ''%'')) (upto_nul c)" by blast
        with p have "ci_substring q c" by (intro like_plain_query) auto
        with c show ?thesis by blast
      qed
    qed
    from ty have tyf: "\<forall>ty. t = Some ty \<and> ty \<noteq> [] \<longrightarrow> e_type e = ty"
      by (auto simp: of_type_def)
    have pre: "\<forall>c. e_content e = Some c \<longrightarrow>
            s_content row = js_substring 200 c @ (if 200 < js_length c then ''...'' else [])"
      by (simp add: row search_row_of_def content_preview_def)
    have asc: "\<forall>c. e_content e = Some c \<and> (\<forall>b\<in>set c. (of_char b :: nat) < 128) \<longrightarrow>
            s_content row = take 200 c @ (if 200 < length c then ''...'' else [])"
      using pre by (simp add: js_substring_ascii js_length_ascii)
    from ed fields like sub tyf pre asc
    show "\<exists>e\<in>set (entities d).
            s_id row = e_id e \<and> s_name row = e_name e \<and> s_type row = e_type e
          \<and> s_updated_at row = e_updated_at e
          \<and> (sql_like (upto_nul (''%'' @ q @ ''%'')) (upto_nul (e_name e))
               \<or> (\<exists>c. e_content e = Some c
                      \<and> sql_like (upto_nul (''%'' @ q @ ''%'')) (upto_nul c)))
          \<and> (wildcard_free q \<and> CHR 0x00 \<notin> set q \<longrightarrow>
               ci_substring q (e_name e) \<or> (\<exists>c. e_content e = Some c \<and> ci_substring q c))
          \<and> (\<forall>ty. t = Some ty \<and> ty \<noteq> [] \<longrightarrow> e_type e = ty)
          \<and> (\<forall>c. e_content e = Some c \<longrightarrow>
               s_content row = js_substring 200 c @ (if 200 < js_length c then ''...'' else []))
          \<and> (\<forall>c. e_content e = Some c \<and> (\<forall>b\<in>set c. (of_char b :: nat) < 128) \<longrightarrow>
               s_content row = take 200 c @ (if 200 < length c then ''...'' else []))"
      by blast
  qed
qed

lemma smiley_bytes:
  "utf16_units (CHR 0xF0) = 2" "\<not> continuation (CHR 0xF0)"
  "continuation (CHR 0x9F)" "continuation (CHR 0x98)" "continuation (CHR 0x80)"
  by (simp_all add: utf16_units_def continuation_def)

lemma js_substring_smiley:
  "2 \<le> n \<Longrightarrow> js_substring n (smiley @ s) = smiley @ js_substring (n - 2) s"
  by (simp add: smiley_def smiley_bytes)

lemma js_substring_smiley_0: "js_substring 0 (smiley @ s) = []"
  by (simp add: smiley_def smiley_bytes)

lemma js_substring_smileys:
  "js_substring (2 * k) (concat (replicate m smiley)) = concat (replicate (min k m) smiley)"
proof (induction k arbitrary: m)
  case 0
  show ?case by (cases m) (simp_all add: js_substring_smiley_0)
next
  case (Suc k)
  show ?case
  proof (cases m)
    case 0
    then show ?thesis by simp
  next
    case (Suc j)
    with Suc.IH [of j] show ?thesis by (simp add: js_substring_smiley)
  qed
qed

lemma js_length_smileys: "js_length (concat (replicate m smiley)) = 2 * m"
  by (induction m) (simp_all add: js_length_def smiley_def smiley_bytes utf16_units_def)

lemma characters_smileys:
  "length (filter (\<lambda>b. \<not> continuation b) (concat (replicate m smiley))) = m"
  by (induction m) (simp_all add: smiley_def smiley_bytes)

text \<open>
  The claim as the specification words it fails in six ways. The query \<open>_\<close> returns
  the entity \<open>cfg\<close>, whose name and content have no underscore in them. The query
  \<open>a\<close>, NUL, \<open>z\<close> returns the entity named \<open>banana\<close>, which does not contain it: the
  pattern ends at the NUL. A query of 49999 characters returns nothing: the statement
  raises. Two entities updated in the same second are both returned, so the order is not
  strict. The type filter \<open>''\<close> filters nothing: an entity of type \<open>project\<close> is
  returned. And a content of 101 characters, each of two UTF-16 code units, is cut to
  its first 100 characters.
\<close>

theorem memorySearch_counterexample:
  "memorySearch ''_'' None db1 =
     Inr \<lparr>s_count = 1,
          s_entities = [\<lparr>s_id = ''id-1'', s_name = ''cfg'', s_type = ''project'',
                         s_content = ''c1'', s_updated_at = 10\<rparr>]\<rparr>
   \<and> \<not> ci_substring ''_'' ''cfg'' \<and> \<not> ci_substring ''_'' ''c1''
   \<and> memorySearch nul_query None db5 =
     Inr \<lparr>s_count = 1,
          s_entities = [\<lparr>s_id = ''id-3'', s_name = ''banana'', s_type = ''fruit'',
                         s_content = ''yellow'', s_updated_at = 3\<rparr>]\<rparr>
   \<and> \<not> ci_substring nul_query ''banana'' \<and> \<not> ci_substring nul_query ''yellow''
   \<and> memorySearch long_query None db1 = Inl (SQLITE_ERROR ''LIKE or GLOB pattern too complex'')
   \<and> memorySearch ''c'' None db6 =
     Inr \<lparr>s_count = 2,
          s_entities = [\<lparr>s_id = ''id-1'', s_name = ''cfg'', s_type = ''project'',
                         s_content = ''c1'', s_updated_at = 10\<rparr>,
                        \<lparr>s_id = ''id-4'', s_name = ''cfg-b'', s_type = ''project'',
                         s_content = ''c4'', s_updated_at = 10\<rparr>]\<rparr>
   \<and> memorySearch ''cfg'' (Some []) db1 =
     Inr \<lparr>s_count = 1,
          s_entities = [\<lparr>s_id = ''id-1'', s_name = ''cfg'', s_type = ''project'',
                         s_content = ''c1'', s_updated_at = 10\<rparr>]\<rparr>
   \<and> e_content smileys = Some (concat (replicate 101 smiley))
   \<and> length (filter (\<lambda>b. \<not> continuation b) (concat (replicate 101 smiley))) = 101
   \<and> memorySearch ''smil'' None db7 =
     Inr \<lparr>s_count = 1,
          s_entities = [\<lparr>s_id = ''id-5'', s_name = ''smileys'', s_type = ''note'',
                         s_content = concat (replicate 100 smiley) @ ''...'', s_updated_at = 4\<rparr>]\<rparr>"
proof -
  note defs = memorySearch_def select_rows_eq of_type_def order_by_updated_at_desc_def
    search_row_of_def content_preview_def upto_nul_def toLowerAscii_def Let_def
    skip_char_def continuation_def utf16_units_def js_length_def
  have w: "memorySearch ''_'' None db1 =
     Inr \<lparr>s_count = 1,
          s_entities = [\<lparr>s_id = ''id-1'', s_name = ''cfg'', s_type = ''project'',
                         s_content = ''c1'', s_updated_at = 10\<rparr>]\<rparr>"
    by (simp add: defs db1_def cfg_def)
  have wn: "\<not> ci_substring ''_'' ''cfg''" "\<not> ci_substring ''_'' ''c1''"
    by (simp_all add: toLowerAscii_def)
  have n: "memorySearch nul_query None db5 =
     Inr \<lparr>s_count = 1,
          s_entities = [\<lparr>s_id = ''id-3'', s_name = ''banana'', s_type = ''fruit'',
                         s_content = ''yellow'', s_updated_at = 3\<rparr>]\<rparr>"
    by (simp add: defs db5_def banana_def nul_query_def)
  have nn: "\<not> ci_substring nul_query ''banana''" "\<not> ci_substring nul_query ''yellow''"
    by (simp_all add: toLowerAscii_def nul_query_def)
  have len: "50000 < length (''%'' @ long_query @ ''%'')"
    by (simp add: long_query_def)
  have l: "memorySearch long_query None db1 = Inl (SQLITE_ERROR ''LIKE or GLOB pattern too complex'')"
    using len by (simp add: memorySearch_def select_rows_eq of_type_def db1_def)
  have t: "memorySearch ''c'' None db6 =
     Inr \<lparr>s_count = 2,
          s_entities = [\<lparr>s_id = ''id-1'', s_name = ''cfg'', s_type = ''project'',
                         s_content = ''c1'', s_updated_at = 10\<rparr>,
                        \<lparr>s_id = ''id-4'', s_name = ''cfg-b'', s_type = ''project'',
                         s_content = ''c4'', s_updated_at = 10\<rparr>]\<rparr>"
    by (simp add: defs db6_def cfg_def cfg_b_def)
  have f: "memorySearch ''cfg'' (Some []) db1 =
     Inr \<lparr>s_count = 1,
          s_entities = [\<lparr>s_id = ''id-1'', s_name = ''cfg'', s_type = ''project'',
                         s_content = ''c1'', s_updated_at = 10\<rparr>]\<rparr>"
    by (simp add: defs db1_def cfg_def)
  have sc: "e_content smileys = Some (concat (replicate 101 smiley))"
    by (simp add: smileys_def)
  have sn: "length (filter (\<lambda>b. \<not> continuation b) (concat (replicate 101 smiley))) = 101"
    by (rule characters_smileys)
  have "js_substring (2 * 100) (concat (replicate 101 smiley)) = concat (replicate (min 100 101) smiley)"
    by (rule js_substring_smileys)
  then have cut: "js_substring 200 (concat (replicate 101 smiley)) = concat (replicate 100 smiley)"
    by simp
  have "js_length (concat (replicate 101 smiley)) = 2 * 101"
    by (rule js_length_smileys)
  then have more: "200 < js_length (concat (replicate 101 smiley))"
    by simp
  have row: "search_row_of smileys =
      \<lparr>s_id = ''id-5'', s_name = ''smileys'', s_type = ''note'',
       s_content = concat (replicate 100 smiley) @ ''...'', s_updated_at = 4\<rparr>"
    using cut more by (simp add: search_row_of_def content_preview_def smileys_def)
  have nm: "sql_like (upto_nul ''%smil%'') (upto_nul (e_name smileys))"
    by (simp add: smileys_def upto_nul_def toLowerAscii_def sql_like_percent)
  have "memorySearch ''smil'' None db7 =
     Inr \<lparr>s_count = 1, s_entities = [search_row_of smileys]\<rparr>"
    using nm by (simp add: memorySearch_def select_rows_eq of_type_def order_by_updated_at_desc_def
        db7_def Let_def)
  then have s: "memorySearch ''smil'' None db7 =
     Inr \<lparr>s_count = 1,
          s_entities = [\<lparr>s_id = ''id-5'', s_name = ''smileys'', s_type = ''note'',
                         s_content = concat (replicate 100 smiley) @ ''...'', s_updated_at = 4\<rparr>]\<rparr>"
    by (simp only: row)
  from w wn n nn l t f sc sn s show ?thesis by blast
qed

theorem memorySearch_like_witness:
  "length ''alp'' + 2 \<le> 50000 \<and> wildcard_free ''alp'' \<and> CHR 0x00 \<notin> set ''alp''
   \<and> memorySearch ''alp'' (Some ''note'') db3 =
       Inr \<lparr>s_count = 1,
            s_entities = [\<lparr>s_id = ''id-9'', s_name = ''Alpha'', s_type = ''note'',
                           s_content = replicate 200 (CHR ''z'') @ ''...'', s_updated_at = 7\<rparr>]\<rparr>
   \<and> ci_substring ''alp'' ''Alpha''
   \<and> 50000 < length long_query + 2 \<and> long_note \<in> set (entities db3) \<and> e_type long_note = ''note''
   \<and> memorySearch long_query (Some ''note'') db3
       = Inl (SQLITE_ERROR ''LIKE or GLOB pattern too complex'')"
proof -
  note t = memorySearch_like [where q = "''alp''" and t = "Some ''note''" and d = db3]
  note tl = memorySearch_like [where q = long_query and t = "Some ''note''" and d = db3]
  have h1: "length ''alp'' + 2 \<le> 50000" by simp
  have wf: "wildcard_free ''alp''" by (simp add: wildcard_free_def)
  have nf: "CHR 0x00 \<notin> set ''alp''" by simp
  have ln: "long_note \<in> set (entities db3)" "e_type long_note = ''note''"
    "e_name long_note = ''Alpha''" "e_id long_note = ''id-9''" "e_updated_at long_note = 7"
    "e_content long_note = Some (replicate 201 (CHR ''z''))"
    by (simp_all add: db3_def long_note_def)
  have only: "\<And>e. e \<in> set (entities db3) \<Longrightarrow> e_type e = ''note'' \<Longrightarrow> e = long_note"
    by (auto simp: db3_def cfg_def long_note_def)
  have hl: "50000 < length long_query + 2" by (simp add: long_query_def)
  from t h1 obtain res where res: "memorySearch ''alp'' (Some ''note'') db3 = Inr res"
    by blast
  have "memorySearch ''alp'' (Some ''note'') db3 =
      Inr \<lparr>s_count = 1, s_entities = [search_row_of long_note]\<rparr>"
    by (simp add: memorySearch_def select_rows_eq of_type_def order_by_updated_at_desc_def
        upto_nul_def toLowerAscii_def sql_like_percent db3_def cfg_def long_note_def Let_def)
  with res have rows: "s_entities res = [search_row_of long_note]"
    by auto
  from t res have cnt: "s_count res = length (s_entities res)"
    and all: "\<forall>row\<in>set (s_entities res). \<exists>e\<in>set (entities db3).
            s_id row = e_id e \<and> s_name row = e_name e \<and> s_type row = e_type e
          \<and> s_updated_at row = e_updated_at e
          \<and> (sql_like (upto_nul (''%'' @ ''alp'' @ ''%'')) (upto_nul (e_name e))
               \<or> (\<exists>c. e_content e = Some c
                      \<and> sql_like (upto_nul (''%'' @ ''alp'' @ ''%'')) (upto_nul c)))
          \<and> (wildcard_free ''alp'' \<and> CHR 0x00 \<notin> set ''alp'' \<longrightarrow>
               ci_substring ''alp'' (e_name e) \<or> (\<exists>c. e_content e = Some c \<and> ci_substring ''alp'' c))
          \<and> (\<forall>ty. Some ''note'' = Some ty \<and> ty \<noteq> [] \<longrightarrow> e_type e = ty)
          \<and> (\<forall>c. e_content e = Some c \<longrightarrow>
               s_content row = js_substring 200 c @ (if 200 < js_length c then ''...'' else []))
          \<and> (\<forall>c. e_content e = Some c \<and> (\<forall>b\<in>set c. (of_char b :: nat) < 128) \<longrightarrow>
               s_content row = take 200 c @ (if 200 < length c then ''...'' else []))"
    by blast+
  from all rows obtain e where e: "e \<in> set (entities db3)"
    "s_id (search_row_of long_note) = e_id e" "s_name (search_row_of long_note) = e_name e"
    "s_type (search_row_of long_note) = e_type e"
    "s_updated_at (search_row_of long_note) = e_updated_at e"
    "\<forall>ty. Some ''note'' = Some ty \<and> ty \<noteq> [] \<longrightarrow> e_type e = ty"
    "\<forall>c. e_content e = Some c \<and> (\<forall>b\<in>set c. (of_char b :: nat) < 128) \<longrightarrow>
       s_content (search_row_of long_note) = take 200 c @ (if 200 < length c then ''...'' else [])"
    by auto
  from e(1,6) only have el: "e = long_note" by auto
  have asc: "\<forall>b\<in>set (replicate 201 (CHR ''z'')). (of_char b :: nat) < 128"
    by simp
  from e el ln asc have fields: "s_id (search_row_of long_note) = ''id-9''"
    "s_name (search_row_of long_note) = ''Alpha''" "s_type (search_row_of long_note) = ''note''"
    "s_updated_at (search_row_of long_note) = 7"
    "s_content (search_row_of long_note) = replicate 200 (CHR ''z'') @ ''...''"
    by simp_all
  then have row: "search_row_of long_note =
      \<lparr>s_id = ''id-9'', s_name = ''Alpha'', s_type = ''note'',
       s_content = replicate 200 (CHR ''z'') @ ''...'', s_updated_at = 7\<rparr>"
    by (cases "search_row_of long_note") simp
  from cnt rows row have "res = \<lparr>s_count = 1,
            s_entities = [\<lparr>s_id = ''id-9'', s_name = ''Alpha'', s_type = ''note'',
                           s_content = replicate 200 (CHR ''z'') @ ''...'', s_updated_at = 7\<rparr>]\<rparr>"
    by (cases res) simp
  with res have r1: "memorySearch ''alp'' (Some ''note'') db3 =
       Inr \<lparr>s_count = 1,
            s_entities = [\<lparr>s_id = ''id-9'', s_name = ''Alpha'', s_type = ''note'',
                           s_content = replicate 200 (CHR ''z'') @ ''...'', s_updated_at = 7\<rparr>]\<rparr>"
    by simp
  have sub: "ci_substring ''alp'' ''Alpha''"
    by (simp add: toLowerAscii_def)
  from ln(1,2) have "\<exists>e\<in>set (entities db3). \<forall>ty. Some ''note'' = Some ty \<and> ty \<noteq> [] \<longrightarrow> e_type e = ty"
    by auto
  with tl hl have r2: "memorySearch long_query (Some ''note'') db3
       = Inl (SQLITE_ERROR ''LIKE or GLOB pattern too complex'')"
    by blast
  from h1 wf nf r1 sub hl ln(1,2) r2 show ?thesis by blast
qed

subsection \<open>Relations and the entities they name\<close>

lemma left_join_absent:
  "\<forall>e\<in>set es. e_id e \<noteq> k \<Longrightarrow> left_join k es = [None]"
  by (simp add: left_join_def filter_none)

lemma left_join_nonempty: "left_join k es \<noteq> []"
  by (simp add: left_join_def split: list.splits)

lemma set_select_from_or_to:
  "set (select_from_or_to k rs) = {r \<in> set rs. from_entity r = k \<or> to_entity r = k}"
  by (auto simp: select_from_or_to_def)

lemma getRelations_rows:
  "set (rel_rows (memoryGetRelations k d)) =
     {relation_row_of r e1 e2 | r e1 e2.
        r \<in> set (relations d) \<and> (from_entity r = k \<or> to_entity r = k)
        \<and> e1 \<in> set (left_join (from_entity r) (entities d))
        \<and> e2 \<in> set (left_join (to_entity r) (entities d))}"
  by (auto simp: memoryGetRelations_def Let_def set_select_from_or_to)

lemma getRelations_after_delete:
  assumes "es' = filter (\<lambda>e. e_id e \<noteq> k) (entities d)"
  shows "(\<forall>r\<in>set (relations d). from_entity r = k \<or> to_entity r = k \<longrightarrow>
            (\<exists>row\<in>set (rel_rows (memoryGetRelations k (d\<lparr>entities := es'\<rparr>))). rel row = r))
       \<and> (\<forall>row\<in>set (rel_rows (memoryGetRelations k (d\<lparr>entities := es'\<rparr>))).
            (from_entity (rel row) = k \<longrightarrow> from_name row = None \<and> from_type row = None)
          \<and> (to_entity (rel row) = k \<longrightarrow> to_name row = None \<and> to_type row = None))"
proof (intro conjI ballI impI)
  fix r
  assume r: "r \<in> set (relations d)" "from_entity r = k \<or> to_entity r = k"
  obtain e1 where e1: "e1 \<in> set (left_join (from_entity r) es')"
    using left_join_nonempty [of "from_entity r" es'] by (cases "left_join (from_entity r) es'") auto
  obtain e2 where e2: "e2 \<in> set (left_join (to_entity r) es')"
    using left_join_nonempty [of "to_entity r" es'] by (cases "left_join (to_entity r) es'") auto
  from r e1 e2 have "relation_row_of r e1 e2 \<in> set (rel_rows (memoryGetRelations k (d\<lparr>entities := es'\<rparr>)))"
    unfolding getRelations_rows by auto
  moreover have "rel (relation_row_of r e1 e2) = r"
    by (simp add: relation_row_of_def)
  ultimately show "\<exists>row\<in>set (rel_rows (memoryGetRelations k (d\<lparr>entities := es'\<rparr>))). rel row = r"
    by blast
next
  have gone: "left_join k es' = [None]"
    using assms by (intro left_join_absent) simp
  fix row
  assume "row \<in> set (rel_rows (memoryGetRelations k (d\<lparr>entities := es'\<rparr>)))"
  then obtain r e1 e2 where row: "row = relation_row_of r e1 e2"
    and e1: "e1 \<in> set (left_join (from_entity r) es')"
    and e2: "e2 \<in> set (left_join (to_entity r) es')"
    unfolding getRelations_rows by auto
  {
    assume "from_entity (rel row) = k"
    with row e1 gone have "e1 = None" by (simp add: relation_row_of_def)
    with row show "from_name row = None" "from_type row = None"
      by (simp_all add: relation_row_of_def)
  }
  {
    assume "to_entity (rel row) = k"
    with row e2 gone have "e2 = None" by (simp add: relation_row_of_def)
    with row show "to_name row = None" "to_type row = None"
      by (simp_all add: relation_row_of_def)
  }
qed

text \<open>
  C2, as the code has it. The functions check nothing themselves, and what the store
  accepts is what the tables accept. On a connection that does not enforce the declared
  foreign keys the claim holds as it stands: \<open>memoryRelate\<close> creates the relation whatever
  its endpoints are, \<open>memoryDelete\<close> removes the entity and nothing else, and afterwards
  \<open>memoryGetRelations\<close> on the deleted id still returns each relation that names it, every
  row with null name and type on the deleted side. On a connection that enforces them,
  \<open>memoryRelate\<close> creates the relation when both endpoints are ids of entities, and raises
  a constraint error otherwise.
\<close>

theorem relations_follow_foreign_keys:
  "(uuid \<notin> set (map r_id (relations d)) \<longrightarrow>
      memoryRelate stringify False uuid now fromId toId ty md d =
        Inr (d\<lparr>relations := relations d @
                 [\<lparr>r_id = uuid, from_entity = fromId, to_entity = toId, relation_type = ty,
                   r_metadata = Some (stringify md), r_created_at = now\<rparr>]\<rparr>,
             \<lparr>rr_id = uuid, rr_created = True\<rparr>))
   \<and> memoryDelete False k d =
        Inr (d\<lparr>entities := filter (\<lambda>e. e_id e \<noteq> k) (entities d)\<rparr>,
             \<lparr>deleted = (k \<in> set (map e_id (entities d)))\<rparr>)
   \<and> (\<forall>d' res. memoryDelete False k d = Inr (d', res) \<longrightarrow>
        relations d' = relations d
      \<and> (\<forall>r\<in>set (relations d). from_entity r = k \<or> to_entity r = k \<longrightarrow>
            (\<exists>row\<in>set (rel_rows (memoryGetRelations k d')). rel row = r))
      \<and> (\<forall>row\<in>set (rel_rows (memoryGetRelations k d')).
            (from_entity (rel row) = k \<longrightarrow> from_name row = None \<and> from_type row = None)
          \<and> (to_entity (rel row) = k \<longrightarrow> to_name row = None \<and> to_type row = None)))
   \<and> (uuid \<notin> set (map r_id (relations d)) \<longrightarrow>
        memoryRelate stringify True uuid now fromId toId ty md d =
          (if fromId \<in> set (map e_id (entities d)) \<and> toId \<in> set (map e_id (entities d))
           then Inr (d\<lparr>relations := relations d @
                 [\<lparr>r_id = uuid, from_entity = fromId, to_entity = toId, relation_type = ty,
                   r_metadata = Some (stringify md), r_created_at = now\<rparr>]\<rparr>,
             \<lparr>rr_id = uuid, rr_created = True\<rparr>)
           else Inl SQLITE_CONSTRAINT_FOREIGNKEY))"
proof (intro conjI)
  show "uuid \<notin> set (map r_id (relations d)) \<longrightarrow>
      memoryRelate stringify False uuid now fromId toId ty md d =
        Inr (d\<lparr>relations := relations d @
                 [\<lparr>r_id = uuid, from_entity = fromId, to_entity = toId, relation_type = ty,
                   r_metadata = Some (stringify md), r_created_at = now\<rparr>]\<rparr>,
             \<lparr>rr_id = uuid, rr_created = True\<rparr>)"
    by (simp add: memoryRelate_def)
  have len: "(0 < length (filter (\<lambda>e. e_id e = k) (entities d))) = (k \<in> set (map e_id (entities d)))"
    by (auto simp: filter_empty_conv)
  show del: "memoryDelete False k d =
        Inr (d\<lparr>entities := filter (\<lambda>e. e_id e \<noteq> k) (entities d)\<rparr>,
             \<lparr>deleted = (k \<in> set (map e_id (entities d)))\<rparr>)"
    using len by (simp add: memoryDelete_def Let_def)
  show "\<forall>d' res. memoryDelete False k d = Inr (d', res) \<longrightarrow>
        relations d' = relations d
      \<and> (\<forall>r\<in>set (relations d). from_entity r = k \<or> to_entity r = k \<longrightarrow>
            (\<exists>row\<in>set (rel_rows (memoryGetRelations k d')). rel row = r))
      \<and> (\<forall>row\<in>set (rel_rows (memoryGetRelations k d')).
            (from_entity (rel row) = k \<longrightarrow> from_name row = None \<and> from_type row = None)
          \<and> (to_entity (rel row) = k \<longrightarrow> to_name row = None \<and> to_type row = None))"
  proof (intro allI impI)
    fix d' res
    assume "memoryDelete False k d = Inr (d', res)"
    with del have d': "d' = d\<lparr>entities := filter (\<lambda>e. e_id e \<noteq> k) (entities d)\<rparr>"
      by simp
    have "relations d' = relations d" by (simp add: d')
    moreover note getRelations_after_delete [OF refl, of d k]
    ultimately show "relations d' = relations d
      \<and> (\<forall>r\<in>set (relations d). from_entity r = k \<or> to_entity r = k \<longrightarrow>
            (\<exists>row\<in>set (rel_rows (memoryGetRelations k d')). rel row = r))
      \<and> (\<forall>row\<in>set (rel_rows (memoryGetRelations k d')).
            (from_entity (rel row) = k \<longrightarrow> from_name row = None \<and> from_type row = None)
          \<and> (to_entity (rel row) = k \<longrightarrow> to_name row = None \<and> to_type row = None))"
      unfolding d' by blast
  qed
  show "uuid \<notin> set (map r_id (relations d)) \<longrightarrow>
        memoryRelate stringify True uuid now fromId toId ty md d =
          (if fromId \<in> set (map e_id (entities d)) \<and> toId \<in> set (map e_id (entities d))
           then Inr (d\<lparr>relations := relations d @
                 [\<lparr>r_id = uuid, from_entity = fromId, to_entity = toId, relation_type = ty,
                   r_metadata = Some (stringify md), r_created_at = now\<rparr>]\<rparr>,
             \<lparr>rr_id = uuid, rr_created = True\<rparr>)
           else Inl SQLITE_CONSTRAINT_FOREIGNKEY)"
    by (simp add: memoryRelate_def)
qed

text \<open>
  The claim as the specification words it fails where the foreign keys are enforced: a
  relation from an id that names no entity is refused.
\<close>

theorem memoryRelate_dangling_counterexample:
  "memoryRelate stringify2 True ''R2'' 4 ''nobody'' ''B'' ''depends_on'' [] db4
     = Inl SQLITE_CONSTRAINT_FOREIGNKEY"
  by (simp add: memoryRelate_def db4_def n1_def n2_def depends_on_def)

theorem relations_follow_foreign_keys_witness:
  "''R2'' \<notin> set (map r_id (relations db4))
   \<and> (\<exists>d'. memoryRelate stringify2 False ''R2'' 4 ''A'' ''ghost'' ''knows'' [] db4
              = Inr (d', \<lparr>rr_id = ''R2'', rr_created = True\<rparr>))
   \<and> (\<exists>d'. memoryDelete False ''A'' db4 = Inr (d', \<lparr>deleted = True\<rparr>)
        \<and> relations d' = [depends_on]
        \<and> (\<exists>row\<in>set (rel_rows (memoryGetRelations ''A'' d')).
              rel row = depends_on \<and> from_name row = None \<and> from_type row = None))
   \<and> memoryRelate stringify2 True ''R2'' 4 ''A'' ''ghost'' ''knows'' [] db4
        = Inl SQLITE_CONSTRAINT_FOREIGNKEY
   \<and> (\<exists>d'. memoryRelate stringify2 True ''R2'' 4 ''B'' ''A'' ''knows'' [] db4
              = Inr (d', \<lparr>rr_id = ''R2'', rr_created = True\<rparr>))"
proof -
  have fresh: "''R2'' \<notin> set (map r_id (relations db4))"
    by (simp add: db4_def depends_on_def)
  have ids: "set (map e_id (entities db4)) = {''A'', ''B''}"
    by (auto simp: db4_def n1_def n2_def)
  have rels: "relations db4 = [depends_on]" "from_entity depends_on = ''A''"
    by (simp_all add: db4_def depends_on_def)
  note t1 = relations_follow_foreign_keys [where uuid = "''R2''" and d = db4 and stringify = stringify2
      and now = 4 and fromId = "''A''" and toId = "''ghost''" and ty = "''knows''" and md = "[]"
      and k = "''A''"]
  note t2 = relations_follow_foreign_keys [where uuid = "''R2''" and d = db4 and stringify = stringify2
      and now = 4 and fromId = "''B''" and toId = "''A''" and ty = "''knows''" and md = "[]"
      and k = "''A''"]
  from t1 fresh have a: "\<exists>d'. memoryRelate stringify2 False ''R2'' 4 ''A'' ''ghost'' ''knows'' [] db4
              = Inr (d', \<lparr>rr_id = ''R2'', rr_created = True\<rparr>)"
    by blast
  from t1 ids obtain d' where del: "memoryDelete False ''A'' db4 = Inr (d', \<lparr>deleted = True\<rparr>)"
    by auto
  with t1 have after: "relations d' = relations db4"
    "\<forall>r\<in>set (relations db4). from_entity r = ''A'' \<or> to_entity r = ''A'' \<longrightarrow>
            (\<exists>row\<in>set (rel_rows (memoryGetRelations ''A'' d')). rel row = r)"
    "\<forall>row\<in>set (rel_rows (memoryGetRelations ''A'' d')).
            (from_entity (rel row) = ''A'' \<longrightarrow> from_name row = None \<and> from_type row = None)"
    by blast+
  from after(2) rels obtain row where row: "row \<in> set (rel_rows (memoryGetRelations ''A'' d'))"
    "rel row = depends_on" by auto
  with after(3) rels have "from_name row = None \<and> from_type row = None" by auto
  with row del after(1) rels have b: "\<exists>d'. memoryDelete False ''A'' db4 = Inr (d', \<lparr>deleted = True\<rparr>)
        \<and> relations d' = [depends_on]
        \<and> (\<exists>row\<in>set (rel_rows (memoryGetRelations ''A'' d')).
              rel row = depends_on \<and> from_name row = None \<and> from_type row = None)"
    by auto
  from t1 fresh ids have c: "memoryRelate stringify2 True ''R2'' 4 ''A'' ''ghost'' ''knows'' [] db4
        = Inl SQLITE_CONSTRAINT_FOREIGNKEY"
    by simp
  from t2 fresh ids have e: "\<exists>d'. memoryRelate stringify2 True ''R2'' 4 ''B'' ''A'' ''knows'' [] db4
              = Inr (d', \<lparr>rr_id = ''R2'', rr_created = True\<rparr>)"
    by simp
  from fresh a b c e show ?thesis by blast
qed

section \<open>Properties of the dispatcher\<close>

text \<open>
  C6. A tool name that is none of the \<open>case\<close> labels reaches the \<open>default\<close> branch, whose
  exception the \<open>catch\<close> turns into the handler's return value: a result with
  \<open>isError: true\<close> and the one text \<open>Error: Unknown tool: \<close> followed by the name. The
  handler returns this value; it raises nothing.
\<close>

theorem callTool_unknown:
  assumes "name \<notin> set tool_names"
  shows "callTool body pretty name args =
           \<lparr>cr_content = [\<lparr>c_type = ''text'', c_text = ''Error: Unknown tool: '' @ name\<rparr>],
            isError = True\<rparr>
       \<and> isError (callTool body pretty name args)
       \<and> suffix name (c_text (hd (cr_content (callTool body pretty name args))))"
proof -
  have eq: "callTool body pretty name args =
           \<lparr>cr_content = [\<lparr>c_type = ''text'', c_text = ''Error: Unknown tool: '' @ name\<rparr>],
            isError = True\<rparr>"
    using assms by (simp add: callTool_def)
  have "suffix name (''Error: Unknown tool: '' @ name)"
    by (rule suffix_appendI) simp
  then show ?thesis
    by (simp add: eq)
qed

theorem callTool_unknown_witness:
  "''fs_format_disk'' \<notin> set tool_names
   \<and> callTool echo_body id ''fs_format_disk'' ''{}'' =
        \<lparr>cr_content = [\<lparr>c_type = ''text'', c_text = ''Error: Unknown tool: fs_format_disk''\<rparr>],
         isError = True\<rparr>"
proof -
  have h: "''fs_format_disk'' \<notin> set tool_names"
    by (simp add: tool_names_def)
  from callTool_unknown [OF h, of echo_body id "''{}''"] h show ?thesis
    by simp
qed

section \<open>Properties of the session registry\<close>

lemma lookup_Some:
  "(lookup sessions header = Some (k, v)) = (header = Some k \<and> k \<noteq> [] \<and> sessions k = Some v)"
  by (auto simp: lookup_def split: option.splits)

lemma lookup_live:
  "sessions sid = Some s \<Longrightarrow> sid \<noteq> [] \<Longrightarrow> lookup sessions (Some sid) = Some (sid, s)"
  by (simp add: lookup_Some)

lemma handle_keeps:
  assumes "sessions sid = Some s" and "\<not> tears_down sid r"
    and "fresh_uuids [r] sessions"
  shows "handle r sessions sid = Some s"
proof (cases r)
  case (POST header uuid created connected initialized)
  show ?thesis
  proof (cases "lookup sessions header")
    case None
    with assms(3) POST have "sessions uuid = None" by (simp add: live_def)
    with assms(1) have "uuid \<noteq> sid" by auto
    with assms(1) None POST show ?thesis by (simp add: post_mcp_def Let_def)
  next
    case (Some kv)
    obtain k v where kv: "kv = (k, v)" by (cases kv)
    with Some have "sessions k = Some v" by (simp add: lookup_Some)
    with assms(1) have "(sessions(k \<mapsto> v)) sid = Some s" by auto
    with assms(1) Some kv POST show ?thesis by (simp add: post_mcp_def)
  qed
next
  case (DELETE header)
  show ?thesis
  proof (cases "lookup sessions header")
    case None
    with assms(1) DELETE show ?thesis by (simp add: delete_mcp_def)
  next
    case (Some kv)
    obtain k v where kv: "kv = (k, v)" by (cases kv)
    with Some have "header = Some k" by (simp add: lookup_Some)
    with assms(2) DELETE have "k \<noteq> sid" by simp
    with assms(1) Some kv DELETE show ?thesis by (simp add: delete_mcp_def)
  qed
qed

lemma run_keeps:
  "sessions sid = Some s \<Longrightarrow> \<forall>r\<in>set rs. \<not> tears_down sid r \<Longrightarrow> fresh_uuids rs sessions
     \<Longrightarrow> run rs sessions sid = Some s"
proof (induction rs arbitrary: sessions)
  case Nil
  then show ?case by simp
next
  case (Cons r rs)
  have "handle r sessions sid = Some s"
    using Cons.prems by (intro handle_keeps) auto
  moreover have "fresh_uuids rs (handle r sessions)"
    using Cons.prems by simp
  ultimately show ?case
    using Cons.IH [of "handle r sessions"] Cons.prems by simp
qed

text \<open>
  C7. A request to \<open>POST /mcp\<close> that carries the id of a session of the registry is given
  to the stored pair, and leaves the registry as it is. Along any run of requests in which
  the session is not torn down, the id stays bound to that same pair, so every later
  request carrying it is handled by it too. The stored pair is the one built by the
  request that created the session. \<open>randomUUID\<close> is taken never to give an id that is
  in the registry at that moment.
\<close>

theorem session_id_resolves_to_same_pair:
  "(sessions sid = Some s \<and> sid \<noteq> [] \<longrightarrow>
      post_mcp sessions (Some sid) uuid created connected initialized = (sessions, Handled sid s)
    \<and> ((\<forall>r\<in>set rs. \<not> tears_down sid r) \<and> fresh_uuids rs sessions \<longrightarrow>
          run rs sessions sid = Some s
        \<and> post_mcp (run rs sessions) (Some sid) uuid created connected initialized
            = (run rs sessions, Handled sid s)))
   \<and> (\<not> live sessions header \<longrightarrow>
        post_mcp sessions header uuid created True initialized
          = (sessions(uuid \<mapsto> created), Handled uuid created))"
proof (intro conjI impI)
  have step: "\<And>reg. reg sid = Some s \<Longrightarrow> sid \<noteq> [] \<Longrightarrow>
      post_mcp reg (Some sid) uuid created connected initialized = (reg, Handled sid s)"
  proof -
    fix reg :: registry
    assume r: "reg sid = Some s" and ne: "sid \<noteq> []"
    from r have "reg(sid \<mapsto> s) = reg" by (rule map_upd_triv)
    then show "post_mcp reg (Some sid) uuid created connected initialized = (reg, Handled sid s)"
      using r ne by (simp add: post_mcp_def lookup_live)
  qed
  {
    assume a: "sessions sid = Some s \<and> sid \<noteq> []"
    then show "post_mcp sessions (Some sid) uuid created connected initialized = (sessions, Handled sid s)"
      by (simp add: step)
    assume b: "(\<forall>r\<in>set rs. \<not> tears_down sid r) \<and> fresh_uuids rs sessions"
    with a show kept: "run rs sessions sid = Some s"
      by (intro run_keeps) auto
    with a show "post_mcp (run rs sessions) (Some sid) uuid created connected initialized
              = (run rs sessions, Handled sid s)"
      by (simp add: step)
  }
  assume "\<not> live sessions header"
  then have "lookup sessions header = None"
    unfolding live_def by blast
  then show "post_mcp sessions header uuid created True initialized
          = (sessions(uuid \<mapsto> created), Handled uuid created)"
    by (simp add: post_mcp_def Let_def)
qed

theorem session_id_resolves_to_same_pair_witness:
  "\<not> live Map.empty None
   \<and> post_mcp Map.empty None ''u1'' s1 True True = (reg1, Handled ''u1'' s1)
   \<and> reg1 ''u1'' = Some s1
   \<and> fresh_uuids [POST None ''u2'' s2 True True, DELETE (Some ''u2''), POST (Some ''u1'') ''u3'' s2 True False] reg1
   \<and> run [POST None ''u2'' s2 True True, DELETE (Some ''u2''), POST (Some ''u1'') ''u3'' s2 True False] reg1 ''u1''
        = Some s1
   \<and> post_mcp (run [POST None ''u2'' s2 True True, DELETE (Some ''u2''), POST (Some ''u1'') ''u3'' s2 True False] reg1)
        (Some ''u1'') ''u4'' s2 True False
        = (run [POST None ''u2'' s2 True True, DELETE (Some ''u2''), POST (Some ''u1'') ''u3'' s2 True False] reg1,
           Handled ''u1'' s1)"
proof -
  let ?rs = "[POST None ''u2'' s2 True True, DELETE (Some ''u2''), POST (Some ''u1'') ''u3'' s2 True False]"
  have h0: "\<not> live Map.empty None" by (simp add: live_def lookup_def)
  have h1: "reg1 ''u1'' = Some s1" by (simp add: reg1_def)
  have h2: "''u1'' \<noteq> []" by simp
  have h3: "\<forall>r\<in>set ?rs. \<not> tears_down ''u1'' r" by simp
  have h4: "fresh_uuids ?rs reg1"
    by (simp add: reg1_def post_mcp_def delete_mcp_def live_def lookup_def Let_def)
  note t = session_id_resolves_to_same_pair [where sessions = reg1 and sid = "''u1''" and s = s1
      and uuid = "''u4''" and created = s2 and connected = True and initialized = False
      and rs = ?rs]
  note t0 = session_id_resolves_to_same_pair [where sessions = Map.empty and header = None
      and uuid = "''u1''" and created = s1 and initialized = True]
  from t0 h0 have c: "post_mcp Map.empty None ''u1'' s1 True True = (reg1, Handled ''u1'' s1)"
    unfolding reg1_def by blast
  from t h1 h2 h3 h4
  have "run ?rs reg1 ''u1'' = Some s1
      \<and> post_mcp (run ?rs reg1) (Some ''u1'') ''u4'' s2 True False = (run ?rs reg1, Handled ''u1'' s1)"
    by blast
  with h0 c h1 h4 show ?thesis by blast
qed

text \<open>
  C8. \<open>DELETE /mcp\<close> with the id of a session of the registry removes that session and
  answers 200; with no header, an empty one or an id that is not in the registry it answers
  404 and leaves the registry as it is. After a teardown the id is no longer live: a
  \<open>POST /mcp\<close> that carries it takes the creating branch and, when the new server
  connects, is handled by the newly built pair under the newly minted id, which is what
  the registry then holds.
\<close>

theorem delete_mcp_teardown:
  "(sessions sid = Some s \<and> sid \<noteq> [] \<longrightarrow>
      delete_mcp sessions (Some sid) = (sessions(sid := None), 200))
   \<and> delete_mcp sessions None = (sessions, 404)
   \<and> (sessions sid = None \<longrightarrow> delete_mcp sessions (Some sid) = (sessions, 404))
   \<and> (sessions sid = Some s \<and> sid \<noteq> [] \<longrightarrow>
        \<not> live (fst (delete_mcp sessions (Some sid))) (Some sid)
      \<and> post_mcp (fst (delete_mcp sessions (Some sid))) (Some sid) uuid created True initialized
          = ((sessions(sid := None))(uuid \<mapsto> created), Handled uuid created))"
  by (auto simp: delete_mcp_def post_mcp_def live_def lookup_def Let_def)

theorem delete_mcp_teardown_witness:
  "reg1 ''u1'' = Some s1
   \<and> delete_mcp reg1 (Some ''u1'') = (Map.empty, 200)
   \<and> delete_mcp reg1 None = (reg1, 404)
   \<and> reg1 ''u9'' = None
   \<and> delete_mcp reg1 (Some ''u9'') = (reg1, 404)
   \<and> post_mcp (fst (delete_mcp reg1 (Some ''u1''))) (Some ''u1'') ''u2'' s2 True False
        = ([''u2'' \<mapsto> s2], Handled ''u2'' s2)"
proof -
  have h0: "''u1'' \<noteq> []" by simp
  have h1: "reg1 ''u1'' = Some s1" and h2: "reg1 ''u9'' = None"
    by (simp_all add: reg1_def)
  have e: "reg1(''u1'' := None) = Map.empty"
    by (simp add: reg1_def)
  note t1 = delete_mcp_teardown [where sessions = reg1 and sid = "''u1''" and s = s1
      and uuid = "''u2''" and created = s2 and initialized = False]
  note t9 = delete_mcp_teardown [where sessions = reg1 and sid = "''u9''" and s = s1
      and uuid = "''u2''" and created = s2 and initialized = False]
  from t1 h0 h1 have a0: "delete_mcp reg1 (Some ''u1'') = (reg1(''u1'' := None), 200)"
    by blast
  from t1 have b: "delete_mcp reg1 None = (reg1, 404)"
    by blast
  from t1 h0 h1 have c0: "post_mcp (fst (delete_mcp reg1 (Some ''u1''))) (Some ''u1'') ''u2'' s2 True False
        = ((reg1(''u1'' := None))(''u2'' \<mapsto> s2), Handled ''u2'' s2)"
    by blast
  from t9 h2 have d: "delete_mcp reg1 (Some ''u9'') = (reg1, 404)"
    by blast
  from h1 h2 a0 [unfolded e] b c0 [unfolded e] d show ?thesis by blast
qed

section \<open>Properties of the filesystem tools\<close>

lemma resolvePath_denied:
  "\<not> startsWith (path_resolve cwd ws p) ws \<Longrightarrow>
     resolvePath cwd ws p = Inl (Error ''Access denied: Path is outside workspace'')"
  by (simp add: resolvePath_def)

lemma resolvePath_allowed:
  "(resolvePath cwd ws p = Inr full) = (full = path_resolve cwd ws p \<and> startsWith full ws)"
  by (auto simp: resolvePath_def Let_def)

text \<open>
  C10. When the path that \<open>path.resolve\<close> gives for the argument does not start with the
  workspace directory string, each of the seven tools throws
  \<open>Access denied: Path is outside workspace\<close> and leaves the file system as it found it,
  whatever the functions of \<open>fs/promises\<close> would do: none of them is called.
  \<open>resolvePath\<close> returns a path exactly when the resolved path starts with that string,
  and the path it returns is the resolved one, the only path the tools go on with.
\<close>

theorem outside_workspace_denied:
  "(\<not> startsWith (path_resolve cwd ws p) ws \<longrightarrow>
      writeFile api cwd ws p data s = (Inl (Error ''Access denied: Path is outside workspace''), s)
    \<and> readFile api cwd ws p s = (Inl (Error ''Access denied: Path is outside workspace''), s)
    \<and> editFile api replace cwd ws p oldText newText s
        = (Inl (Error ''Access denied: Path is outside workspace''), s)
    \<and> deleteFile api cwd ws p s = (Inl (Error ''Access denied: Path is outside workspace''), s)
    \<and> createDirectory api cwd ws p s = (Inl (Error ''Access denied: Path is outside workspace''), s)
    \<and> listDirectory api cwd ws p s = (Inl (Error ''Access denied: Path is outside workspace''), s)
    \<and> getDirectoryTree api cwd ws p maxDepth s
        = (Inl (Error ''Access denied: Path is outside workspace''), s))
   \<and> (\<forall>full. (resolvePath cwd ws p = Inr full)
         = (full = path_resolve cwd ws p \<and> startsWith full ws))"
proof (intro conjI impI allI)
  fix full
  show "(resolvePath cwd ws p = Inr full) = (full = path_resolve cwd ws p \<and> startsWith full ws)"
    by (rule resolvePath_allowed)
next
  assume "\<not> startsWith (path_resolve cwd ws p) ws"
  then have d: "resolvePath cwd ws p = Inl (Error ''Access denied: Path is outside workspace'')"
    by (rule resolvePath_denied)
  show "writeFile api cwd ws p data s = (Inl (Error ''Access denied: Path is outside workspace''), s)"
    by (simp add: writeFile_def d)
  show "readFile api cwd ws p s = (Inl (Error ''Access denied: Path is outside workspace''), s)"
    by (simp add: readFile_def d)
  show "editFile api replace cwd ws p oldText newText s
        = (Inl (Error ''Access denied: Path is outside workspace''), s)"
    by (simp add: editFile_def d)
  show "deleteFile api cwd ws p s = (Inl (Error ''Access denied: Path is outside workspace''), s)"
    by (simp add: deleteFile_def d)
  show "createDirectory api cwd ws p s = (Inl (Error ''Access denied: Path is outside workspace''), s)"
    by (simp add: createDirectory_def d)
  show "listDirectory api cwd ws p s = (Inl (Error ''Access denied: Path is outside workspace''), s)"
    by (simp add: listDirectory_def d)
  show "getDirectoryTree api cwd ws p maxDepth s
        = (Inl (Error ''Access denied: Path is outside workspace''), s)"
    by (simp add: getDirectoryTree_def d)
qed

theorem outside_workspace_denied_witness:
  "path_resolve ''/app'' ''/tmp/workspace'' ''../../etc/passwd'' = ''/etc/passwd''
   \<and> \<not> startsWith ''/etc/passwd'' ''/tmp/workspace''
   \<and> writeFile failing_fs ''/app'' ''/tmp/workspace'' ''../../etc/passwd'' ''x'' ()
        = (Inl (Error ''Access denied: Path is outside workspace''), ())
   \<and> deleteFile failing_fs ''/app'' ''/tmp/workspace'' ''../../etc/passwd'' ()
        = (Inl (Error ''Access denied: Path is outside workspace''), ())
   \<and> getDirectoryTree failing_fs ''/app'' ''/tmp/workspace'' ''../../etc/passwd'' 3 ()
        = (Inl (Error ''Access denied: Path is outside workspace''), ())
   \<and> path_resolve ''/app'' ''/tmp/workspace'' ''src/./a.txt'' = ''/tmp/workspace/src/a.txt''
   \<and> resolvePath ''/app'' ''/tmp/workspace'' ''src/./a.txt'' = Inr ''/tmp/workspace/src/a.txt''"
proof -
  have r: "path_resolve ''/app'' ''/tmp/workspace'' ''../../etc/passwd'' = ''/etc/passwd''"
    by (simp add: path_resolve_def normalizeAbsolute_def isAbsolute_def)
  have n: "\<not> startsWith ''/etc/passwd'' ''/tmp/workspace''"
    by (simp add: startsWith_def)
  have r2: "path_resolve ''/app'' ''/tmp/workspace'' ''src/./a.txt'' = ''/tmp/workspace/src/a.txt''"
    by (simp add: path_resolve_def normalizeAbsolute_def isAbsolute_def)
  have y: "startsWith ''/tmp/workspace/src/a.txt'' ''/tmp/workspace''"
    by (simp add: startsWith_def)
  note t = outside_workspace_denied [where cwd = "''/app''" and ws = "''/tmp/workspace''"
      and p = "''../../etc/passwd''" and api = failing_fs and s = "()" and data = "''x''"
      and maxDepth = 3 and replace = literal_replace and oldText = "''a''" and newText = "''b''"]
  note t2 = outside_workspace_denied [where cwd = "''/app''" and ws = "''/tmp/workspace''"
      and p = "''src/./a.txt''" and api = failing_fs and s = "()" and data = "''x''"
      and maxDepth = 3 and replace = literal_replace and oldText = "''a''" and newText = "''b''"]
  from t n have w: "writeFile failing_fs ''/app'' ''/tmp/workspace'' ''../../etc/passwd'' ''x'' ()
        = (Inl (Error ''Access denied: Path is outside workspace''), ())"
    and dl: "deleteFile failing_fs ''/app'' ''/tmp/workspace'' ''../../etc/passwd'' ()
        = (Inl (Error ''Access denied: Path is outside workspace''), ())"
    and g: "getDirectoryTree failing_fs ''/app'' ''/tmp/workspace'' ''../../etc/passwd'' 3 ()
        = (Inl (Error ''Access denied: Path is outside workspace''), ())"
    unfolding r by blast+
  from t2 y have a: "resolvePath ''/app'' ''/tmp/workspace'' ''src/./a.txt'' = Inr ''/tmp/workspace/src/a.txt''"
    unfolding r2 by blast
  from r n w dl g r2 a show ?thesis by blast
qed

end
